theory Spec2Isabelle
  imports Complex_Main
begin

section \<open>Tabular data\<close>

text \<open>
  The dashboard (\<^verbatim>\<open>app.py\<close>) works on a pandas DataFrame.  A cell holds a number, a
  text, a timestamp or nothing (\<^verbatim>\<open>NaN\<close>, \<^verbatim>\<open>None\<close>, \<^verbatim>\<open>NaT\<close>).  Floating-point numbers are
  modelled by the rationals, so arithmetic is exact and infinities do not occur; a float
  that may be \<^verbatim>\<open>nan\<close> is a \<open>rat option\<close> with \<open>None\<close> for \<^verbatim>\<open>nan\<close>.  Where the rounding of a
  sum decides a comparison, in the sums of the grouped tables, the summation is a
  parameter (see \<open>group_sum\<close>).  A timestamp counts whole seconds since 1970-01-01, a
  calendar day counts days since then.

  A frame is its column names and its rows in order; a row is read by column name, and a
  name the row does not hold reads as \<open>Missing\<close>, as pandas fills a record lacking a key.
\<close>

datatype cell = Num rat | Str string | Date int | Missing

type_synonym row = "(string \<times> cell) list"

type_synonym pyfloat = "rat option"

record frame =
  columns :: "string list"
  body :: "row list"

datatype pyerr = KeyError | IndexError | TypeError | ValueError

text \<open>Sequencing of steps that may raise: the first exception ends the computation.\<close>

definition andthen :: "pyerr + 'a \<Rightarrow> ('a \<Rightarrow> pyerr + 'b) \<Rightarrow> pyerr + 'b" where
  "andthen r f = (case r of Inl e \<Rightarrow> Inl e | Inr x \<Rightarrow> f x)"

fun collect :: "('a \<Rightarrow> pyerr + 'b) \<Rightarrow> 'a list \<Rightarrow> pyerr + 'b list" where
  "collect f [] = Inr []"
| "collect f (x # xs) =
     (case f x of
        Inl e \<Rightarrow> Inl e
      | Inr y \<Rightarrow> (case collect f xs of Inl e \<Rightarrow> Inl e | Inr ys \<Rightarrow> Inr (y # ys)))"

definition cell_of :: "row \<Rightarrow> string \<Rightarrow> cell" where
  "cell_of r c = (case map_of r c of Some v \<Rightarrow> v | None \<Rightarrow> Missing)"

text \<open>\<^verbatim>\<open>len(df)\<close> and \<^verbatim>\<open>df[c]\<close>; the latter raises \<^verbatim>\<open>KeyError\<close> on an unknown column.\<close>

definition len :: "frame \<Rightarrow> nat" where
  "len df = length (body df)"

definition column :: "frame \<Rightarrow> string \<Rightarrow> cell list" where
  "column df c = map (\<lambda>r. cell_of r c) (body df)"

definition getcol :: "frame \<Rightarrow> string \<Rightarrow> pyerr + cell list" where
  "getcol df c = (if c \<in> set (columns df) then Inr (column df c) else Inl KeyError)"

section \<open>Numeric series\<close>

text \<open>
  \<^verbatim>\<open>series.astype(float)\<close> converts cell by cell.  A number stays, a missing cell becomes
  \<^verbatim>\<open>nan\<close>, a text goes through Python's \<^verbatim>\<open>float()\<close>, which raises \<^verbatim>\<open>ValueError\<close> on text that is
  no number, and a timestamp raises \<^verbatim>\<open>TypeError\<close>.  Python's \<^verbatim>\<open>float()\<close> on text is the
  parameter \<open>pf\<close>: \<open>pf s = None\<close> when it raises, \<open>Some v\<close> when it returns \<open>v\<close>.
\<close>

fun to_float :: "(string \<Rightarrow> pyfloat option) \<Rightarrow> cell \<Rightarrow> pyerr + pyfloat" where
  "to_float pf (Num x) = Inr (Some x)"
| "to_float pf (Str s) = (case pf s of None \<Rightarrow> Inl ValueError | Some v \<Rightarrow> Inr v)"
| "to_float pf (Date t) = Inl TypeError"
| "to_float pf Missing = Inr None"

definition astype_float :: "(string \<Rightarrow> pyfloat option) \<Rightarrow> cell list \<Rightarrow> pyerr + pyfloat list" where
  "astype_float pf series = collect (to_float pf) series"

text \<open>
  The reductions of a numeric series skip \<^verbatim>\<open>nan\<close> (\<^verbatim>\<open>skipna=True\<close>): the sum of no value is 0,
  the mean of no value is \<^verbatim>\<open>nan\<close>.
\<close>

fun present :: "'a option list \<Rightarrow> 'a list" where
  "present [] = []"
| "present (None # vs) = present vs"
| "present (Some x # vs) = x # present vs"

definition nansum :: "pyfloat list \<Rightarrow> rat" where
  "nansum vs = sum_list (present vs)"

definition nanmean :: "pyfloat list \<Rightarrow> pyfloat" where
  "nanmean vs =
     (if present vs = [] then None
      else Some (sum_list (present vs) / of_nat (length (present vs))))"


text \<open>
  Without \<^verbatim>\<open>astype\<close>, a mean or a percentile takes the cells as they are: a text or a
  timestamp among them makes it raise \<^verbatim>\<open>TypeError\<close>.
\<close>

fun numeric :: "cell \<Rightarrow> pyerr + pyfloat" where
  "numeric (Num x) = Inr (Some x)"
| "numeric Missing = Inr None"
| "numeric (Str s) = Inl TypeError"
| "numeric (Date t) = Inl TypeError"

definition series_mean :: "cell list \<Rightarrow> pyerr + pyfloat" where
  "series_mean series = andthen (collect numeric series) (\<lambda>vs. Inr (nanmean vs))"

definition series_count :: "cell list \<Rightarrow> rat" where
  "series_count series = of_nat (length (filter (\<lambda>c. c \<noteq> Missing) series))"

section \<open>Metrics Engine\<close>

text \<open>
  \<^verbatim>\<open>safe_sum\<close>: the sum of the series as floats; any exception on the way gives 0.0.
\<close>

definition safe_sum :: "(string \<Rightarrow> pyfloat option) \<Rightarrow> cell list \<Rightarrow> rat" where
  "safe_sum pf series =
     (case astype_float pf series of Inr vs \<Rightarrow> nansum vs | Inl e \<Rightarrow> 0)"

record metrics =
  revenue :: rat
  orders :: rat
  aov :: pyfloat
  conv_rate :: pyfloat
  rows :: nat

definition compute_metrics :: "(string \<Rightarrow> pyfloat option) \<Rightarrow> frame \<Rightarrow> pyerr + metrics" where
  "compute_metrics pf df =
     andthen (if ''Revenue'' \<in> set (columns df)
              then andthen (getcol df ''Revenue'') (\<lambda>s. Inr (safe_sum pf s))
              else Inr 0) (\<lambda>rev.
     andthen (if ''Conversions'' \<in> set (columns df)
              then andthen (getcol df ''Conversions'') (\<lambda>s. Inr (safe_sum pf s))
              else Inr 0) (\<lambda>conversions.
     let orders = (if conversions > 0 then conversions else of_nat (len df)) in
     andthen (if orders > 0 then Inr (Some (rev / orders))
              else if ''Average Order Size'' \<in> set (columns df)
              then andthen (getcol df ''Average Order Size'') series_mean
              else Inr (Some 0)) (\<lambda>aov.
     Inr \<lparr>revenue = rev, orders = orders, aov = aov,
          conv_rate = (if len df > 0 \<and> ''Conversions'' \<in> set (columns df)
                       then Some (conversions / of_nat (len df)) else None),
          rows = len df\<rparr>)))"

section \<open>Grouping and sorting\<close>

text \<open>
  Order of group keys: numbers by value, texts by code point, timestamps by time; across
  kinds numbers come first, then texts, then timestamps.
\<close>

fun str_le :: "string \<Rightarrow> string \<Rightarrow> bool" where
  "str_le [] t = True"
| "str_le (a # s) [] = False"
| "str_le (a # s) (b # t) = ((of_char a :: nat) < of_char b \<or> (a = b \<and> str_le s t))"

fun key_le :: "cell \<Rightarrow> cell \<Rightarrow> bool" where
  "key_le (Num x) (Num y) = (x \<le> y)"
| "key_le (Num x) k = True"
| "key_le (Str s) (Num y) = False"
| "key_le (Str s) (Str t) = str_le s t"
| "key_le (Str s) k = True"
| "key_le (Date a) (Date b) = (a \<le> b)"
| "key_le (Date a) Missing = True"
| "key_le (Date a) k = False"
| "key_le Missing Missing = True"
| "key_le Missing k = False"

text \<open>Sorting is insertion sort, which keeps equal elements in their order.\<close>

fun insert_by :: "('a \<Rightarrow> 'a \<Rightarrow> bool) \<Rightarrow> 'a \<Rightarrow> 'a list \<Rightarrow> 'a list" where
  "insert_by le x [] = [x]"
| "insert_by le x (y # ys) = (if le x y then x # y # ys else y # insert_by le x ys)"

definition stable_sort :: "('a \<Rightarrow> 'a \<Rightarrow> bool) \<Rightarrow> 'a list \<Rightarrow> 'a list" where
  "stable_sort le xs = foldr (insert_by le) xs []"

text \<open>\<^verbatim>\<open>series.unique()\<close>: the distinct values in order of first appearance, \<^verbatim>\<open>nan\<close> included.\<close>

definition unique :: "'a list \<Rightarrow> 'a list" where
  "unique xs = rev (remdups (rev xs))"

text \<open>
  \<^verbatim>\<open>df.groupby(by)\<close> with its defaults (\<^verbatim>\<open>sort=True\<close>, \<^verbatim>\<open>dropna=True\<close>): one group per distinct
  key that is not missing, in key order; rows whose key is missing are in no group.
\<close>

definition group_keys :: "cell list \<Rightarrow> cell list" where
  "group_keys keys = stable_sort key_le (unique (filter (\<lambda>k. k \<noteq> Missing) keys))"

definition group_rows :: "frame \<Rightarrow> string \<Rightarrow> cell \<Rightarrow> row list" where
  "group_rows df by k = filter (\<lambda>r. cell_of r by = k) (body df)"


datatype aggfun = Sum | Count | Mean

definition of_float :: "pyfloat \<Rightarrow> cell" where
  "of_float v = (case v of None \<Rightarrow> Missing | Some x \<Rightarrow> Num x)"

fun num_of :: "cell \<Rightarrow> pyfloat" where
  "num_of (Num x) = Some x"
| "num_of c = None"

text \<open>
  The type pandas gives a column: \<^verbatim>\<open>float64\<close> when it holds numbers and missing cells only,
  \<^verbatim>\<open>datetime64\<close> when it holds timestamps and missing cells only, \<^verbatim>\<open>object\<close> otherwise.
\<close>

datatype dtype = Float64 | Datetime64 | Object

definition dtype_of :: "cell list \<Rightarrow> dtype" where
  "dtype_of series =
     (if list_all (\<lambda>c. case c of Num x \<Rightarrow> True | Missing \<Rightarrow> True | _ \<Rightarrow> False) series
      then Float64
      else if list_all (\<lambda>c. case c of Date t \<Rightarrow> True | Missing \<Rightarrow> True | _ \<Rightarrow> False) series
      then Datetime64
      else Object)"

text \<open>
  The sum of a group.  On a \<^verbatim>\<open>float64\<close> column it is the sum of the numbers.  How the
  library rounds the sum of floats is not modelled: the summation is the parameter
  \<open>summation\<close>, and \<open>sum_list\<close> is the exact one.  A \<^verbatim>\<open>datetime64\<close> column has no sum
  (\<^verbatim>\<open>TypeError\<close>).  On an \<^verbatim>\<open>object\<close> column the cells that are not missing are added one
  after the other with Python's \<^verbatim>\<open>+\<close>, starting from the first of them: numbers add up,
  texts are joined, and any other pair raises \<^verbatim>\<open>TypeError\<close>; a group without such a cell
  sums to 0.
\<close>

fun py_add :: "cell \<Rightarrow> cell \<Rightarrow> pyerr + cell" where
  "py_add (Num a) (Num b) = Inr (Num (a + b))"
| "py_add (Str s) (Str t) = Inr (Str (s @ t))"
| "py_add a b = Inl TypeError"

fun py_sum :: "cell \<Rightarrow> cell list \<Rightarrow> pyerr + cell" where
  "py_sum acc [] = Inr acc"
| "py_sum acc (c # cs) = andthen (py_add acc c) (\<lambda>s. py_sum s cs)"

definition group_sum :: "(rat list \<Rightarrow> rat) \<Rightarrow> dtype \<Rightarrow> cell list \<Rightarrow> pyerr + cell" where
  "group_sum summation d series =
     (case d of
        Float64 \<Rightarrow> Inr (Num (summation (present (map num_of series))))
      | Datetime64 \<Rightarrow> Inl TypeError
      | Object \<Rightarrow> (case filter (\<lambda>c. c \<noteq> Missing) series of
                     [] \<Rightarrow> Inr (Num 0)
                   | c # cs \<Rightarrow> py_sum c cs))"

text \<open>
  The mean of a group: of the numbers on a \<^verbatim>\<open>float64\<close> or \<^verbatim>\<open>object\<close> column, where a text or
  a timestamp raises \<^verbatim>\<open>TypeError\<close>; of the timestamps on a \<^verbatim>\<open>datetime64\<close> column, cut to a
  whole second as the timestamps of the model are.  A group without a value has the mean
  \<^verbatim>\<open>nan\<close>.
\<close>

definition group_mean :: "dtype \<Rightarrow> cell list \<Rightarrow> pyerr + cell" where
  "group_mean d series =
     (case d of
        Datetime64 \<Rightarrow>
          (case present (map (\<lambda>c. case c of Date t \<Rightarrow> Some t | _ \<Rightarrow> None) series) of
             [] \<Rightarrow> Inr Missing
           | t # ts \<Rightarrow> Inr (Date (sum_list (t # ts) div int (length (t # ts)))))
      | _ \<Rightarrow> andthen (series_mean series) (\<lambda>v. Inr (of_float v)))"

fun aggregate :: "(rat list \<Rightarrow> rat) \<Rightarrow> aggfun \<Rightarrow> dtype \<Rightarrow> cell list \<Rightarrow> pyerr + cell" where
  "aggregate summation Sum d series = group_sum summation d series"
| "aggregate summation Count d series = Inr (Num (series_count series))"
| "aggregate summation Mean d series = group_mean d series"

text \<open>
  \<^verbatim>\<open>df.groupby(by).agg(out=(col, fn), ...).reset_index()\<close>: a frame with the key column and
  one column per named aggregation.  An aggregation over a column the frame does not have
  raises \<^verbatim>\<open>KeyError\<close>, whatever the rows are.  \<open>groupby_agg\<close> is the aggregation with exact
  sums.
\<close>

definition agg_group ::
  "(rat list \<Rightarrow> rat) \<Rightarrow> frame \<Rightarrow> string \<Rightarrow> (string \<times> string \<times> aggfun) list \<Rightarrow> cell \<Rightarrow> pyerr + row" where
  "agg_group summation df by specs k =
     andthen (collect (\<lambda>(out, c, fn).
                andthen (aggregate summation fn (dtype_of (column df c))
                           (map (\<lambda>r. cell_of r c) (group_rows df by k)))
                  (\<lambda>v. Inr (out, v))) specs)
       (\<lambda>vs. Inr ((by, k) # vs))"

definition groupby_agg_with ::
  "(rat list \<Rightarrow> rat) \<Rightarrow> frame \<Rightarrow> string \<Rightarrow> (string \<times> string \<times> aggfun) list \<Rightarrow> pyerr + frame" where
  "groupby_agg_with summation df by specs =
     andthen (getcol df by) (\<lambda>keys.
       if list_ex (\<lambda>(out, c, fn). c \<notin> set (columns df)) specs then Inl KeyError
       else andthen (collect (agg_group summation df by specs) (group_keys keys))
              (\<lambda>rs. Inr \<lparr>columns = by # map fst specs, body = rs\<rparr>))"

definition groupby_agg :: "frame \<Rightarrow> string \<Rightarrow> (string \<times> string \<times> aggfun) list \<Rightarrow> pyerr + frame" where
  "groupby_agg df by specs = groupby_agg_with sum_list df by specs"

text \<open>The aggregations the dashboard asks for, with their fall-backs on the column set.\<close>

definition revenue_sum :: "string \<times> string \<times> aggfun" where
  "revenue_sum = (''Revenue'', ''Revenue'', Sum)"

definition conversions_agg :: "frame \<Rightarrow> string \<times> string \<times> aggfun" where
  "conversions_agg df =
     (if ''Conversions'' \<in> set (columns df) then (''Conversions'', ''Conversions'', Sum)
      else (''Conversions'', ''Revenue'', Count))"

definition order_size_agg :: "string \<Rightarrow> frame \<Rightarrow> string \<times> string \<times> aggfun" where
  "order_size_agg out df =
     (if ''Average Order Size'' \<in> set (columns df) then (out, ''Average Order Size'', Mean)
      else (out, ''Revenue'', Mean))"

text \<open>
  \<^verbatim>\<open>t[out] = t['Revenue'] / t['Conversions'].replace(0, np.nan)\<close>: a conversion count of 0
  becomes \<^verbatim>\<open>nan\<close>, and so does the quotient, so no division by 0 takes place; a text
  or a timestamp on either side of the division raises \<^verbatim>\<open>TypeError\<close>.
\<close>

definition replace0 :: "cell \<Rightarrow> cell" where
  "replace0 c = (if c = Num 0 then Missing else c)"

fun divide_cell :: "cell \<Rightarrow> cell \<Rightarrow> pyerr + cell" where
  "divide_cell (Num a) (Num b) = Inr (if b = 0 then Missing else Num (a / b))"
| "divide_cell (Num a) Missing = Inr Missing"
| "divide_cell Missing (Num b) = Inr Missing"
| "divide_cell Missing Missing = Inr Missing"
| "divide_cell a b = Inl TypeError"

definition with_rev_per_conv :: "string \<Rightarrow> frame \<Rightarrow> pyerr + frame" where
  "with_rev_per_conv out t =
     andthen (collect (\<lambda>r. andthen (divide_cell (cell_of r ''Revenue'')
                                      (replace0 (cell_of r ''Conversions'')))
                            (\<lambda>v. Inr (r @ [(out, v)]))) (body t))
       (\<lambda>rs. Inr \<lparr>columns = columns t @ [out], body = rs\<rparr>)"

text \<open>
  \<^verbatim>\<open>t.sort_values(c, ascending=...)\<close>.  pandas' \<^verbatim>\<open>nargsort\<close> takes the rows with a value, asks
  numpy's \<^verbatim>\<open>argsort\<close> for the positions in ascending order of the values, and puts the rows
  without a value last; for a descending sort it reverses the values before and the
  positions after.  The values are compared as Python compares them, so they have to be
  all numbers, all texts or all timestamps (\<^verbatim>\<open>TypeError\<close> otherwise).

  The sorting algorithm is a parameter.  numpy's default promises no order among equal
  values; \<open>argsort\<close> is the algorithm that keeps them in their order, and the functions
  without a sorting parameter run with it.  What is stated of an order of equal values
  is stated for every sorting algorithm.
\<close>

definition sortable :: "cell list \<Rightarrow> bool" where
  "sortable items =
     (list_all (\<lambda>c. case c of Num x \<Rightarrow> True | _ \<Rightarrow> False) items
      \<or> list_all (\<lambda>c. case c of Str s \<Rightarrow> True | _ \<Rightarrow> False) items
      \<or> list_all (\<lambda>c. case c of Date t \<Rightarrow> True | _ \<Rightarrow> False) items)"

definition argsort :: "cell list \<Rightarrow> nat list" where
  "argsort items = stable_sort (\<lambda>i j. key_le (items ! i) (items ! j)) [0..<length items]"

definition nargsort :: "(cell list \<Rightarrow> nat list) \<Rightarrow> bool \<Rightarrow> cell list \<Rightarrow> nat list" where
  "nargsort sorter ascending items =
     (let idx = [0..<length items] in
      if ascending then map (\<lambda>i. idx ! i) (sorter items)
      else rev (map (\<lambda>i. rev idx ! i) (sorter (rev items))))"

definition sort_values_with ::
  "(cell list \<Rightarrow> nat list) \<Rightarrow> frame \<Rightarrow> string \<Rightarrow> bool \<Rightarrow> pyerr + frame" where
  "sort_values_with sorter t c ascending =
     (let non_nans = filter (\<lambda>r. cell_of r c \<noteq> Missing) (body t);
          nans = filter (\<lambda>r. cell_of r c = Missing) (body t);
          items = map (\<lambda>r. cell_of r c) non_nans
      in if sortable items
         then Inr (t\<lparr>body := map (\<lambda>i. non_nans ! i) (nargsort sorter ascending items) @ nans\<rparr>)
         else Inl TypeError)"

definition sort_values :: "frame \<Rightarrow> string \<Rightarrow> bool \<Rightarrow> pyerr + frame" where
  "sort_values t c ascending = sort_values_with argsort t c ascending"

text \<open>\<^verbatim>\<open>t.iloc[0]\<close> and \<^verbatim>\<open>t.index[0]\<close>: \<^verbatim>\<open>IndexError\<close> on a frame without rows.\<close>

definition iloc0 :: "frame \<Rightarrow> pyerr + row" where
  "iloc0 t = (case body t of [] \<Rightarrow> Inl IndexError | r # rs \<Rightarrow> Inr r)"

text \<open>
  The two library routines that are parameters of the model: numpy's \<^verbatim>\<open>argsort\<close> and the
  summation of a column of floats.  The reference library sorts with \<open>argsort\<close> and sums
  exactly.
\<close>

record library =
  np_argsort :: "cell list \<Rightarrow> nat list"
  np_sum :: "rat list \<Rightarrow> rat"

definition reference :: library where
  "reference = \<lparr>np_argsort = argsort, np_sum = sum_list\<rparr>"

text \<open>
  \<^verbatim>\<open>series.quantile(0.25)\<close> with linear interpolation: on the sorted values
  \<open>x\<^sub>0 \<le> \<dots> \<le> x\<^sub>n\<^sub>-\<^sub>1\<close> the position is \<open>(n - 1) / 4\<close>; \<^verbatim>\<open>nan\<close> on no value.
\<close>

definition quantile25 :: "pyfloat list \<Rightarrow> pyfloat" where
  "quantile25 vs =
     (let xs = sort (present vs); n = length xs; i = (n - 1) div 4 in
      if n = 0 then None
      else if i + 1 < n
      then Some (xs ! i + (of_nat ((n - 1) mod 4) / 4) * (xs ! (i + 1) - xs ! i))
      else Some (xs ! i))"

text \<open>Comparison of floats: false when either side is \<^verbatim>\<open>nan\<close>.\<close>

fun float_less :: "pyfloat \<Rightarrow> pyfloat \<Rightarrow> bool" where
  "float_less (Some a) (Some b) = (a < b)"
| "float_less a b = False"


text \<open>
  \<^verbatim>\<open>series.quantile(0.25)\<close> takes the cells as they are: texts and timestamps raise
  \<^verbatim>\<open>TypeError\<close>.
\<close>

definition quantile :: "cell list \<Rightarrow> pyerr + pyfloat" where
  "quantile series = andthen (collect numeric series) (\<lambda>vs. Inr (quantile25 vs))"

section \<open>Recommendation Generator\<close>

text \<open>
  A recommendation is kept as its message template with the values put into it:
  \<^item> \<open>FocusInvestment ch v\<close>: ``Focus investment on \<open>ch\<close> - highest revenue per conversion
    (~\<open>v\<close>).''
  \<^item> \<open>ReviewOptimize ch v\<close>: ``Review or optimize \<open>ch\<close> - low revenue efficiency (~\<open>v\<close>).''
  \<^item> \<open>PeakWindow w\<close>: ``Peak selling window: \<open>w\<close>. \<dots>''
  \<^item> \<open>Coaching names\<close>: ``Consider targeted coaching for lower performers: \<dots>'' with the
    names joined by a comma and a space.
  \<^item> \<open>InventoryNote\<close>: ``Inventory & Returns data not present. \<dots>''
\<close>

datatype recommendation =
    FocusInvestment cell cell
  | ReviewOptimize cell cell
  | PeakWindow cell
  | Coaching "string list"
  | InventoryNote


text \<open>The three data-driven rules, each over a library.\<close>

definition channel_insight_with :: "library \<Rightarrow> frame \<Rightarrow> pyerr + recommendation list" where
  "channel_insight_with lib df =
     (if ''Channel'' \<in> set (columns df) \<and> ''Revenue'' \<in> set (columns df) then
        andthen (groupby_agg_with (np_sum lib) df ''Channel''
                   [revenue_sum, conversions_agg df, order_size_agg ''AOV'' df]) (\<lambda>t.
        andthen (with_rev_per_conv ''Rev_per_Conv'' t) (\<lambda>ch.
        andthen (sort_values_with (np_argsort lib) ch ''Rev_per_Conv'' False) (\<lambda>descending.
        andthen (iloc0 descending) (\<lambda>best.
        andthen (sort_values_with (np_argsort lib) ch ''Rev_per_Conv'' True) (\<lambda>ascending.
        andthen (iloc0 ascending) (\<lambda>worst.
        Inr [FocusInvestment (cell_of best ''Channel'') (cell_of best ''Rev_per_Conv''),
             ReviewOptimize (cell_of worst ''Channel'') (cell_of worst ''Rev_per_Conv'')]))))))
      else Inr [])"

definition time_of_day_insight_with :: "library \<Rightarrow> frame \<Rightarrow> pyerr + recommendation list" where
  "time_of_day_insight_with lib df =
     (if ''Time of Day'' \<in> set (columns df) \<and> ''Revenue'' \<in> set (columns df) then
        andthen (groupby_agg_with (np_sum lib) df ''Time of Day'' [revenue_sum]) (\<lambda>t.
        andthen (sort_values_with (np_argsort lib) t ''Revenue'' False) (\<lambda>descending.
        andthen (iloc0 descending) (\<lambda>top.
        Inr [PeakWindow (cell_of top ''Time of Day'')])))
      else Inr [])"

text \<open>\<^verbatim>\<open>', '.join(names)\<close> raises \<^verbatim>\<open>TypeError\<close> on an item that is not text.\<close>

fun text_of :: "cell \<Rightarrow> pyerr + string" where
  "text_of (Str s) = Inr s"
| "text_of c = Inl TypeError"

text \<open>
  The coaching rule on the table of the representatives (lines 82 to 85), over a sorting
  algorithm:
  \<^verbatim>\<open>low = rep[rep['Revenue'] < rep['Revenue'].quantile(0.25)]\<close>, and when \<^verbatim>\<open>low\<close> has a row,
  the names of \<^verbatim>\<open>low.sort_values('Revenue').head(3)\<close>.
\<close>

definition revenue_of :: "row \<Rightarrow> pyfloat" where
  "revenue_of r = num_of (cell_of r ''Revenue'')"

definition coaching :: "(cell list \<Rightarrow> nat list) \<Rightarrow> frame \<Rightarrow> pyerr + recommendation list" where
  "coaching sorter rep =
     andthen (quantile (column rep ''Revenue'')) (\<lambda>q.
     let low = rep\<lparr>body := filter (\<lambda>r. float_less (revenue_of r) q) (body rep)\<rparr> in
     if body low \<noteq> [] then
       andthen (sort_values_with sorter low ''Revenue'' True) (\<lambda>ascending.
       andthen (collect text_of
                  (map (\<lambda>r. cell_of r ''Sales Rep'') (take 3 (body ascending)))) (\<lambda>small.
       Inr [Coaching small]))
     else Inr [])"

definition sales_rep_coaching_with :: "library \<Rightarrow> frame \<Rightarrow> pyerr + recommendation list" where
  "sales_rep_coaching_with lib df =
     (if ''Sales Rep'' \<in> set (columns df) \<and> ''Revenue'' \<in> set (columns df) then
        andthen (groupby_agg_with (np_sum lib) df ''Sales Rep'' [revenue_sum, conversions_agg df])
          (coaching (np_argsort lib))
      else Inr [])"

text \<open>\<^verbatim>\<open>c.lower()\<close> on the letters A to Z; other characters are left as they are.\<close>

definition lower_char :: "char \<Rightarrow> char" where
  "lower_char c =
     (case map_of (zip ''ABCDEFGHIJKLMNOPQRSTUVWXYZ'' ''abcdefghijklmnopqrstuvwxyz'') c of
        Some d \<Rightarrow> d
      | None \<Rightarrow> c)"

definition lower :: "string \<Rightarrow> string" where
  "lower s = map lower_char s"

definition inventory_names :: "string list" where
  "inventory_names =
     [''stock'', ''inventory'', ''return'', ''returns'', ''return_flag'', ''return_quantity'']"

definition inventory_reminder :: "frame \<Rightarrow> recommendation list" where
  "inventory_reminder df =
     (if \<not> list_ex (\<lambda>c. lower c \<in> set inventory_names) (columns df) then [InventoryNote]
      else [])"


definition make_recommendations_with :: "library \<Rightarrow> frame \<Rightarrow> pyerr + recommendation list" where
  "make_recommendations_with lib df =
     andthen (channel_insight_with lib df) (\<lambda>r1.
     andthen (time_of_day_insight_with lib df) (\<lambda>r2.
     andthen (sales_rep_coaching_with lib df) (\<lambda>r3.
     Inr (r1 @ r2 @ r3 @ inventory_reminder df))))"

definition make_recommendations :: "frame \<Rightarrow> pyerr + recommendation list" where
  "make_recommendations df = make_recommendations_with reference df"

section \<open>Filter Stage\<close>

text \<open>
  After \<^verbatim>\<open>load_data\<close> the cells of the \<^verbatim>\<open>Date\<close> column are timestamps or \<^verbatim>\<open>NaT\<close>
  (\<^verbatim>\<open>pd.to_datetime(..., errors='coerce')\<close>); anything else in a datetime operation is a
  \<^verbatim>\<open>TypeError\<close>.  \<^verbatim>\<open>min()\<close> and \<^verbatim>\<open>max()\<close> skip \<^verbatim>\<open>NaT\<close> and give \<^verbatim>\<open>NaT\<close> on no value; \<^verbatim>\<open>.date()\<close> cuts
  a timestamp to its day and \<^verbatim>\<open>pd.to_datetime\<close> of a day is its midnight; a comparison
  with \<^verbatim>\<open>NaT\<close> on either side is false.
\<close>

fun stamp :: "cell \<Rightarrow> pyerr + int option" where
  "stamp (Date t) = Inr (Some t)"
| "stamp Missing = Inr None"
| "stamp (Num x) = Inl TypeError"
| "stamp (Str s) = Inl TypeError"

definition stamps_min :: "int option list \<Rightarrow> int option" where
  "stamps_min ts = (case present ts of [] \<Rightarrow> None | x # xs \<Rightarrow> Some (fold min xs x))"

definition stamps_max :: "int option list \<Rightarrow> int option" where
  "stamps_max ts = (case present ts of [] \<Rightarrow> None | x # xs \<Rightarrow> Some (fold max xs x))"

definition date_of :: "int option \<Rightarrow> int option" where
  "date_of t = map_option (\<lambda>x. x div 86400) t"

definition to_datetime :: "int option \<Rightarrow> int option" where
  "to_datetime d = map_option (\<lambda>x. x * 86400) d"

definition in_range :: "int option \<Rightarrow> int option \<Rightarrow> cell \<Rightarrow> bool" where
  "in_range a b c =
     (case (a, c, b) of (Some x, Date t, Some y) \<Rightarrow> x \<le> t \<and> t \<le> y | _ \<Rightarrow> False)"

text \<open>
  The sidebar widgets are outside the program: each is a function from what the script
  hands it (the default range, the options) to what the user has selected.
\<close>

record sidebar =
  date_input :: "int option \<Rightarrow> int option \<Rightarrow> int option list"
  channel_select :: "cell list \<Rightarrow> cell list"
  customer_select :: "cell list \<Rightarrow> cell list"
  business_select :: "cell list \<Rightarrow> cell list"

definition date_filter :: "sidebar \<Rightarrow> frame \<Rightarrow> pyerr + frame" where
  "date_filter ui df =
     (if ''Date'' \<in> set (columns df) then
        andthen (getcol df ''Date'') (\<lambda>s.
        andthen (collect stamp s) (\<lambda>ts.
        let lo = date_of (stamps_min ts); hi = date_of (stamps_max ts);
            dr = date_input ui lo hi
        in if length dr = 2
           then Inr (df\<lparr>body := filter (\<lambda>r. in_range (to_datetime (dr ! 0))
                                              (to_datetime (dr ! 1)) (cell_of r ''Date''))
                                   (body df)\<rparr>)
           else Inr df))
      else Inr df)"

text \<open>\<^verbatim>\<open>df[df[c].isin(sel)]\<close>; \<^verbatim>\<open>isin\<close> takes a missing value to be among missing values.\<close>

definition isin_filter :: "frame \<Rightarrow> string \<Rightarrow> cell list \<Rightarrow> pyerr + frame" where
  "isin_filter df c sel =
     andthen (getcol df c) (\<lambda>s.
     Inr (df\<lparr>body := filter (\<lambda>r. cell_of r c \<in> set sel) (body df)\<rparr>))"

definition options :: "frame \<Rightarrow> string \<Rightarrow> pyerr + cell list" where
  "options df c =
     (if c \<in> set (columns df) then andthen (getcol df c) (\<lambda>s. Inr (unique s)) else Inr [])"

definition filters :: "sidebar \<Rightarrow> frame \<Rightarrow> pyerr + frame" where
  "filters ui df0 =
     andthen (date_filter ui df0) (\<lambda>df1.
     andthen (options df1 ''Channel'') (\<lambda>channels.
     let sel_channels = channel_select ui channels in
     andthen (if sel_channels \<noteq> [] then isin_filter df1 ''Channel'' sel_channels
              else Inr df1) (\<lambda>df2.
     andthen (options df2 ''Customer Type'') (\<lambda>cust_types.
     let sel_cust = customer_select ui cust_types in
     andthen (if sel_cust \<noteq> [] then isin_filter df2 ''Customer Type'' sel_cust
              else Inr df2) (\<lambda>df3.
     if ''Business'' \<in> set (columns df3) then
       andthen (options df3 ''Business'') (\<lambda>bizs.
       let sel_biz = business_select ui bizs in
       if sel_biz \<noteq> [] then isin_filter df3 ''Business'' sel_biz else Inr df3)
     else Inr df3)))))"

text \<open>The two states of the sidebar the specification names.\<close>

definition select_all :: sidebar where
  "select_all = \<lparr>date_input = (\<lambda>lo hi. [lo, hi]), channel_select = (\<lambda>opts. opts),
                 customer_select = (\<lambda>opts. opts), business_select = (\<lambda>opts. opts)\<rparr>"

definition select_none :: sidebar where
  "select_none = \<lparr>date_input = (\<lambda>lo hi. []), channel_select = (\<lambda>opts. []),
                  customer_select = (\<lambda>opts. []), business_select = (\<lambda>opts. [])\<rparr>"

section \<open>Dashboard sections\<close>

text \<open>
  Each section shows a table (and a chart of it), or an information message when its
  column is absent.  The charts are outside the program.
\<close>

datatype display = Shown frame | Unavailable

definition chan :: "frame \<Rightarrow> pyerr + display" where
  "chan df =
     (if ''Channel'' \<in> set (columns df) then
        andthen (groupby_agg df ''Channel''
                   [revenue_sum, conversions_agg df, order_size_agg ''Avg_Order'' df]) (\<lambda>t.
        andthen (with_rev_per_conv ''Revenue_per_Conv'' t) (\<lambda>ch.
        andthen (sort_values ch ''Revenue'' False) (\<lambda>descending.
        Inr (Shown descending))))
      else Inr Unavailable)"

text \<open>
  \<^verbatim>\<open>df.set_index('Date').resample('W')['Revenue'].sum()\<close>: weeks end on Sunday and carry
  the day of that Sunday; every week from the first to the last is listed, each with the
  sum of its rows; rows without a date are in no week, and without any date there is no
  week.  (1970-01-04, day 3, is a Sunday.)
\<close>

definition week_end :: "int \<Rightarrow> int" where
  "week_end t = (let d = t div 86400 in d + (3 - d) mod 7)"

definition week_rows :: "frame \<Rightarrow> int \<Rightarrow> row list" where
  "week_rows df w =
     filter (\<lambda>r. case cell_of r ''Date'' of Date t \<Rightarrow> week_end t = w | _ \<Rightarrow> False) (body df)"


definition df_week :: "frame \<Rightarrow> pyerr + display" where
  "df_week df =
     (if ''Date'' \<in> set (columns df) then
        andthen (getcol df ''Date'') (\<lambda>s.
        andthen (collect stamp s) (\<lambda>ts.
        andthen (getcol df ''Revenue'') (\<lambda>revenues.
        case present ts of
          [] \<Rightarrow> Inr (Shown \<lparr>columns = [''Date'', ''Revenue''], body = []\<rparr>)
        | x # xs \<Rightarrow>
            let first = week_end (fold min xs x); last = week_end (fold max xs x) in
            andthen (collect (\<lambda>w.
                       andthen (group_sum sum_list (dtype_of revenues)
                                  (map (\<lambda>r. cell_of r ''Revenue'') (week_rows df w)))
                         (\<lambda>v. Inr [(''Date'', Date (w * 86400)), (''Revenue'', v)]))
                       (map (\<lambda>k. first + 7 * k) [0..(last - first) div 7])) (\<lambda>rs.
            Inr (Shown \<lparr>columns = [''Date'', ''Revenue''], body = rs\<rparr>)))))
      else Inr Unavailable)"

definition tod :: "frame \<Rightarrow> pyerr + display" where
  "tod df =
     (if ''Time of Day'' \<in> set (columns df) then
        andthen (groupby_agg df ''Time of Day'' [revenue_sum]) (\<lambda>t.
        andthen (sort_values t ''Revenue'' False) (\<lambda>descending.
        Inr (Shown descending)))
      else Inr Unavailable)"

definition rep :: "frame \<Rightarrow> pyerr + display" where
  "rep df =
     (if ''Sales Rep'' \<in> set (columns df) \<and> ''Revenue'' \<in> set (columns df) then
        andthen (groupby_agg df ''Sales Rep''
                   [revenue_sum, conversions_agg df, order_size_agg ''Avg_Order'' df]) (\<lambda>t.
        andthen (with_rev_per_conv ''Revenue_per_Conv'' t) (\<lambda>r.
        andthen (sort_values r ''Revenue'' False) (\<lambda>descending.
        Inr (Shown descending))))
      else Inr Unavailable)"

definition cust :: "frame \<Rightarrow> pyerr + display" where
  "cust df =
     (if ''Customer Type'' \<in> set (columns df) then
        andthen (groupby_agg df ''Customer Type'' [revenue_sum, conversions_agg df]) (\<lambda>t.
        Inr (Shown t))
      else Inr Unavailable)"

section \<open>Report Renderer\<close>

text \<open>The tables and the metadata prepared for the reports.\<close>

definition top_table :: "frame \<Rightarrow> string \<Rightarrow> pyerr + frame" where
  "top_table df by =
     (if by \<in> set (columns df) then
        andthen (groupby_agg df by [revenue_sum]) (\<lambda>t. sort_values t ''Revenue'' False)
      else Inr \<lparr>columns = [by, ''Revenue''], body = []\<rparr>)"








section \<open>Vocabulary of the statements\<close>

text \<open>
  A cell coerces when \<^verbatim>\<open>astype(float)\<close> accepts it; its contribution to a sum is its value,
  and 0 when it is \<^verbatim>\<open>nan\<close> or does not coerce.
\<close>

definition coerces :: "(string \<Rightarrow> pyfloat option) \<Rightarrow> cell \<Rightarrow> bool" where
  "coerces pf c = (case to_float pf c of Inr v \<Rightarrow> True | Inl e \<Rightarrow> False)"

definition contribution :: "(string \<Rightarrow> pyfloat option) \<Rightarrow> cell \<Rightarrow> rat" where
  "contribution pf c = (case to_float pf c of Inr (Some x) \<Rightarrow> x | _ \<Rightarrow> 0)"

text \<open>
  The sum of a column in the words of the specification: every cell that fails to coerce
  contributes zero.
\<close>

definition sum_failures_as_zero :: "(string \<Rightarrow> pyfloat option) \<Rightarrow> cell list \<Rightarrow> rat" where
  "sum_failures_as_zero pf series = sum_list (map (contribution pf) series)"

text \<open>
  The total of a column as the program has it: the sum when the column is there and all
  its cells coerce, and 0 otherwise.
\<close>

definition column_total :: "(string \<Rightarrow> pyfloat option) \<Rightarrow> frame \<Rightarrow> string \<Rightarrow> rat" where
  "column_total pf df c =
     (if c \<in> set (columns df) \<and> list_all (coerces pf) (column df c)
      then sum_failures_as_zero pf (column df c) else 0)"

text \<open>What a cell adds to a sum that skips missing cells.\<close>

definition addend :: "cell \<Rightarrow> rat" where
  "addend c = (case c of Num x \<Rightarrow> x | _ \<Rightarrow> 0)"

text \<open>The summed revenue of a row of a group table, 0 when it has none.\<close>

definition amount :: "row \<Rightarrow> rat" where
  "amount r = addend (cell_of r ''Revenue'')"

text \<open>A cell of a loaded \<^verbatim>\<open>Date\<close> column that carries a day without time of day, or \<^verbatim>\<open>NaT\<close>.\<close>

definition date_only :: "cell \<Rightarrow> bool" where
  "date_only c = (case c of Date t \<Rightarrow> t mod 86400 = 0 | Missing \<Rightarrow> True | _ \<Rightarrow> False)"

text \<open>
  The representatives below the 25th percentile of the summed revenues, in the order of
  the table.
\<close>

definition below_quantile :: "frame \<Rightarrow> row list" where
  "below_quantile t =
     (let q = quantile25 (map revenue_of (body t))
      in filter (\<lambda>r. float_less (revenue_of r) q) (body t))"

text \<open>The coaching messages among the recommendations.\<close>

fun is_coaching :: "recommendation \<Rightarrow> bool" where
  "is_coaching (Coaching names) = True"
| "is_coaching r = False"

text \<open>
  What is asked of a sorting algorithm on numbers: it returns every position once, in
  ascending order of the values.  The order among equal values is left to it.
\<close>

definition sorts_numbers :: "(cell list \<Rightarrow> nat list) \<Rightarrow> bool" where
  "sorts_numbers sorter =
     (\<forall>xs. distinct (sorter (map Num xs))
          \<and> set (sorter (map Num xs)) = {0..<length xs}
          \<and> sorted (map (\<lambda>i. xs ! i) (sorter (map Num xs))))"

section \<open>Example datasets\<close>

text \<open>A coercion that accepts no text, as Python's \<^verbatim>\<open>float()\<close> accepts none of the texts below.\<close>

definition rejects :: "string \<Rightarrow> pyfloat option" where
  "rejects s = None"


text \<open>A revenue column with a number and a text that is no number.\<close>

definition mixed_revenue :: frame where
  "mixed_revenue =
     \<lparr>columns = [''Revenue''],
      body = [[(''Revenue'', Num 100)], [(''Revenue'', Str ''abc'')]]\<rparr>"

text \<open>The four rows of the end-to-end scenario of the specification.\<close>

definition tie_dataset :: frame where
  "tie_dataset =
     \<lparr>columns = [''Channel'', ''Revenue'', ''Conversions''],
      body = [[(''Channel'', Str ''A''), (''Revenue'', Num 100), (''Conversions'', Num 2)],
              [(''Channel'', Str ''B''), (''Revenue'', Num 200), (''Conversions'', Num 4)],
              [(''Channel'', Str ''A''), (''Revenue'', Num 50), (''Conversions'', Num 1)],
              [(''Channel'', Str ''B''), (''Revenue'', Num 150), (''Conversions'', Num 3)]]\<rparr>"

text \<open>The metrics of the scenario.\<close>

definition tie_metrics :: metrics where
  "tie_metrics =
     \<lparr>revenue = 500, orders = 10, aov = Some 50, conv_rate = Some (5 / 2), rows = 4\<rparr>"

text \<open>The channel table of the scenario, with its revenue per conversion.\<close>

definition tie_channels :: frame where
  "tie_channels =
     \<lparr>columns = [''Channel'', ''Revenue'', ''Conversions'', ''AOV'', ''Rev_per_Conv''],
      body = [[(''Channel'', Str ''A''), (''Revenue'', Num 150), (''Conversions'', Num 3),
               (''AOV'', Num 75), (''Rev_per_Conv'', Num 50)],
              [(''Channel'', Str ''B''), (''Revenue'', Num 350), (''Conversions'', Num 7),
               (''AOV'', Num 175), (''Rev_per_Conv'', Num 50)]]\<rparr>"

text \<open>A dataset without a revenue column.\<close>

definition no_revenue_dataset :: frame where
  "no_revenue_dataset =
     \<lparr>columns = [''Date'', ''Time of Day'', ''Channel'', ''Customer Type''],
      body = [[(''Date'', Date 0), (''Time of Day'', Str ''Morning''),
               (''Channel'', Str ''Web''), (''Customer Type'', Str ''New'')]]\<rparr>"

text \<open>Two rows, the date of the second one not parsed.\<close>

definition unparsed_date :: frame where
  "unparsed_date =
     \<lparr>columns = [''Date'', ''Revenue''],
      body = [[(''Date'', Date 0), (''Revenue'', Num 10)],
              [(''Date'', Missing), (''Revenue'', Num 20)]]\<rparr>"

text \<open>Three sales; the second has no channel, the third no date and no customer type.\<close>

definition three_sales :: frame where
  "three_sales =
     \<lparr>columns = [''Date'', ''Channel'', ''Customer Type'', ''Business'', ''Revenue''],
      body = [[(''Date'', Date 0), (''Channel'', Str ''Web''), (''Customer Type'', Str ''New''),
               (''Business'', Str ''North''), (''Revenue'', Num 10)],
              [(''Date'', Date 86400), (''Channel'', Missing),
               (''Customer Type'', Str ''Returning''), (''Business'', Str ''North''),
               (''Revenue'', Num 20)],
              [(''Date'', Missing), (''Channel'', Str ''Store''), (''Customer Type'', Missing),
               (''Business'', Str ''South''), (''Revenue'', Num 30)]]\<rparr>"

text \<open>Two sales of one day, at midnight and at one o'clock.\<close>

definition one_day :: frame where
  "one_day =
     \<lparr>columns = [''Date'', ''Revenue''],
      body = [[(''Date'', Date 0), (''Revenue'', Num 10)],
              [(''Date'', Date 3600), (''Revenue'', Num 20)]]\<rparr>"



text \<open>Two rows without a channel.\<close>

definition blank_channels :: frame where
  "blank_channels =
     \<lparr>columns = [''Channel'', ''Revenue''],
      body = [[(''Channel'', Missing), (''Revenue'', Num 50)],
              [(''Channel'', Missing), (''Revenue'', Num 70)]]\<rparr>"

text \<open>Datasets without rows, as a header-only file or a date range without sales gives.\<close>

definition no_rows :: frame where
  "no_rows = \<lparr>columns = [''Channel'', ''Revenue''], body = []\<rparr>"


definition filtered_empty :: frame where
  "filtered_empty =
     \<lparr>columns = [''Date'', ''Channel'', ''Revenue'', ''Conversions'', ''Sales Rep''], body = []\<rparr>"

text \<open>
  Eighteen sales of seventeen sales representatives.  Four of them are below the 25th
  percentile of the summed revenues (100): Pam with 5, Bob with 4 + 6, Max with 15 and Eve
  with 20.
\<close>

definition seventeen_reps :: frame where
  "seventeen_reps =
     \<lparr>columns = [''Sales Rep'', ''Revenue''],
      body = [[(''Sales Rep'', Str ''Ann''), (''Revenue'', Num 170)],
              [(''Sales Rep'', Str ''Bob''), (''Revenue'', Num 4)],
              [(''Sales Rep'', Str ''Cat''), (''Revenue'', Num 130)],
              [(''Sales Rep'', Str ''Dan''), (''Revenue'', Num 210)],
              [(''Sales Rep'', Str ''Eve''), (''Revenue'', Num 20)],
              [(''Sales Rep'', Str ''Fay''), (''Revenue'', Num 100)],
              [(''Sales Rep'', Str ''Gus''), (''Revenue'', Num 190)],
              [(''Sales Rep'', Str ''Hal''), (''Revenue'', Num 110)],
              [(''Sales Rep'', Str ''Ian''), (''Revenue'', Num 220)],
              [(''Sales Rep'', Str ''Jan''), (''Revenue'', Num 140)],
              [(''Sales Rep'', Str ''Kim''), (''Revenue'', Num 160)],
              [(''Sales Rep'', Str ''Lee''), (''Revenue'', Num 120)],
              [(''Sales Rep'', Str ''Max''), (''Revenue'', Num 15)],
              [(''Sales Rep'', Str ''Ned''), (''Revenue'', Num 200)],
              [(''Sales Rep'', Str ''Oli''), (''Revenue'', Num 150)],
              [(''Sales Rep'', Str ''Pam''), (''Revenue'', Num 5)],
              [(''Sales Rep'', Str ''Quy''), (''Revenue'', Num 180)],
              [(''Sales Rep'', Str ''Bob''), (''Revenue'', Num 6)]]\<rparr>"

text \<open>The fields the dashboard's integration note asks for.\<close>

definition integration_fields :: frame where
  "integration_fields =
     \<lparr>columns = [''Product_ID'', ''Stock_Quantity'', ''Return_Reason''],
      body = [[(''Product_ID'', Str ''P1''), (''Stock_Quantity'', Num 3),
               (''Return_Reason'', Str ''size'')]]\<rparr>"

definition integration_fields_flag :: frame where
  "integration_fields_flag =
     \<lparr>columns = [''Product_ID'', ''Stock_Quantity'', ''Return_Flag''],
      body = [[(''Product_ID'', Str ''P1''), (''Stock_Quantity'', Num 3),
               (''Return_Flag'', Num 1)]]\<rparr>"

section \<open>Properties of the Metrics Engine\<close>

lemma andthen_Inr [simp]: "andthen (Inr x) f = f x"
  by (simp add: andthen_def)

lemma andthen_Inl [simp]: "andthen (Inl e) f = Inl e"
  by (simp add: andthen_def)

lemma getcol_present [simp]: "c \<in> set (columns df) \<Longrightarrow> getcol df c = Inr (column df c)"
  by (simp add: getcol_def)

lemma collect_Inr_iff: "collect f xs = Inr ys \<longleftrightarrow> map f xs = map Inr ys"
proof (induction xs arbitrary: ys)
  case Nil
  then show ?case by auto
next
  case (Cons x xs)
  show ?case
  proof (cases "f x")
    case (Inl e)
    then show ?thesis by (cases ys) auto
  next
    case (Inr y)
    show ?thesis
    proof (cases "collect f xs")
      case (Inl e)
      with Cons[of "tl ys"] Inr show ?thesis by (cases ys) auto
    next
      case r: (Inr zs)
      with Cons[of zs] Cons[of "tl ys"] Inr show ?thesis by (cases ys) auto
    qed
  qed
qed

lemma collect_Inl_iff: "(\<exists>e. collect f xs = Inl e) \<longleftrightarrow> (\<exists>x\<in>set xs. \<exists>e. f x = Inl e)"
  by (induction xs) (auto split: sum.splits)

lemma astype_float_all:
  "list_all (coerces pf) s \<Longrightarrow> \<exists>vs. astype_float pf s = Inr vs \<and> nansum vs = sum_failures_as_zero pf s"
  unfolding astype_float_def nansum_def sum_failures_as_zero_def
  by (induction s) (auto simp: coerces_def contribution_def split: sum.splits option.splits)

lemma astype_float_fail:
  "\<not> list_all (coerces pf) s \<Longrightarrow> \<exists>e. astype_float pf s = Inl e"
  unfolding astype_float_def
  by (induction s) (auto simp: coerces_def split: sum.splits)

lemma safe_sum_eq:
  "safe_sum pf s = (if list_all (coerces pf) s then sum_failures_as_zero pf s else 0)"
  using astype_float_all[of pf s] astype_float_fail[of pf s]
  by (auto simp: safe_sum_def)

lemma compute_metrics_Inr:
  "compute_metrics pf df = Inr
     \<lparr>revenue = column_total pf df ''Revenue'',
      orders = (if 0 < column_total pf df ''Conversions'' then column_total pf df ''Conversions'' else of_nat (len df)),
      aov = (if 0 < (if 0 < column_total pf df ''Conversions'' then column_total pf df ''Conversions'' else of_nat (len df))
             then Some (column_total pf df ''Revenue'' / (if 0 < column_total pf df ''Conversions'' then column_total pf df ''Conversions'' else of_nat (len df)))
             else if ''Average Order Size'' \<in> set (columns df) then None else Some 0),
      conv_rate = (if 0 < len df \<and> ''Conversions'' \<in> set (columns df) then Some (column_total pf df ''Conversions'' / of_nat (len df)) else None),
      rows = len df\<rparr>"
  by (auto simp: compute_metrics_def column_total_def safe_sum_eq Let_def len_def column_def series_mean_def nanmean_def)

section \<open>Properties of the Recommendation Generator\<close>

lemma make_recommendations_with_InrD:
  assumes "make_recommendations_with lib df = Inr recs"
  obtains r1 r2 r3 where "channel_insight_with lib df = Inr r1"
    "time_of_day_insight_with lib df = Inr r2"
    "sales_rep_coaching_with lib df = Inr r3" "recs = r1 @ r2 @ r3 @ inventory_reminder df"
  using assms unfolding make_recommendations_with_def andthen_def
  by (auto split: sum.splits)

lemma channel_insight_with_shape:
  "channel_insight_with lib df = Inr r \<Longrightarrow>
     r = [] \<or> (\<exists>a x b y. r = [FocusInvestment a x, ReviewOptimize b y])"
  unfolding channel_insight_with_def andthen_def
  by (auto split: if_splits sum.splits)

lemma time_of_day_insight_with_shape:
  "time_of_day_insight_with lib df = Inr r \<Longrightarrow> r = [] \<or> (\<exists>w. r = [PeakWindow w])"
  unfolding time_of_day_insight_with_def andthen_def
  by (auto split: if_splits sum.splits)

lemma coaching_shape:
  "coaching sorter t = Inr r \<Longrightarrow> r = [] \<or> (\<exists>names. r = [Coaching names])"
  unfolding coaching_def andthen_def Let_def
  by (auto split: if_splits sum.splits)

lemma sales_rep_coaching_with_shape:
  "sales_rep_coaching_with lib df = Inr r \<Longrightarrow> r = [] \<or> (\<exists>names. r = [Coaching names])"
  unfolding sales_rep_coaching_with_def andthen_def
  by (auto split: if_splits sum.splits dest: coaching_shape)

lemma inventory_reminder_shape:
  "inventory_reminder df = (if list_ex (\<lambda>c. lower c \<in> set inventory_names) (columns df) then [] else [InventoryNote])"
  by (simp add: inventory_reminder_def)

lemma inventory_note_with_iff:
  assumes "make_recommendations_with lib df = Inr recs"
  shows "InventoryNote \<in> set recs \<longleftrightarrow> \<not> list_ex (\<lambda>c. lower c \<in> set inventory_names) (columns df)"
proof -
  from assms obtain r1 r2 r3 where r: "channel_insight_with lib df = Inr r1"
    "time_of_day_insight_with lib df = Inr r2"
    "sales_rep_coaching_with lib df = Inr r3" "recs = r1 @ r2 @ r3 @ inventory_reminder df"
    by (rule make_recommendations_with_InrD)
  from channel_insight_with_shape[OF r(1)] have 1: "InventoryNote \<notin> set r1" by auto
  from time_of_day_insight_with_shape[OF r(2)] have 2: "InventoryNote \<notin> set r2" by auto
  from sales_rep_coaching_with_shape[OF r(3)] have 3: "InventoryNote \<notin> set r3" by auto
  show ?thesis using 1 2 3 r(4) by (simp add: inventory_reminder_shape)
qed

lemma inventory_note_iff:
  assumes "make_recommendations df = Inr recs"
  shows "InventoryNote \<in> set recs \<longleftrightarrow> \<not> list_ex (\<lambda>c. lower c \<in> set inventory_names) (columns df)"
  using assms unfolding make_recommendations_def by (rule inventory_note_with_iff)

text \<open>The channel messages need both columns.\<close>

lemma channel_pair_needs_columns:
  assumes "make_recommendations_with lib df = Inr recs"
    and "''Channel'' \<notin> set (columns df) \<or> ''Revenue'' \<notin> set (columns df)"
  shows "FocusInvestment a x \<notin> set recs" and "ReviewOptimize a x \<notin> set recs"
proof -
  from assms(1) obtain r1 r2 r3 where r: "channel_insight_with lib df = Inr r1"
    "time_of_day_insight_with lib df = Inr r2"
    "sales_rep_coaching_with lib df = Inr r3" "recs = r1 @ r2 @ r3 @ inventory_reminder df"
    by (rule make_recommendations_with_InrD)
  from r(1) assms(2) have "r1 = []" by (auto simp: channel_insight_with_def)
  with time_of_day_insight_with_shape[OF r(2)] sales_rep_coaching_with_shape[OF r(3)] r(4)
  show "FocusInvestment a x \<notin> set recs" and "ReviewOptimize a x \<notin> set recs"
    by (auto simp: inventory_reminder_shape)
qed

text \<open>The coaching messages of the recommendations are those of the coaching rule.\<close>

lemma coaching_messages:
  assumes "make_recommendations_with lib df = Inr recs"
  shows "sales_rep_coaching_with lib df = Inr (filter is_coaching recs)"
proof -
  from assms obtain r1 r2 r3 where r: "channel_insight_with lib df = Inr r1"
    "time_of_day_insight_with lib df = Inr r2"
    "sales_rep_coaching_with lib df = Inr r3" "recs = r1 @ r2 @ r3 @ inventory_reminder df"
    by (rule make_recommendations_with_InrD)
  from channel_insight_with_shape[OF r(1)] have 1: "filter is_coaching r1 = []" by auto
  from time_of_day_insight_with_shape[OF r(2)] have 2: "filter is_coaching r2 = []" by auto
  from sales_rep_coaching_with_shape[OF r(3)] have 3: "filter is_coaching r3 = r3" by auto
  have 4: "filter is_coaching (inventory_reminder df) = []" by (simp add: inventory_reminder_shape)
  show ?thesis using 1 2 3 4 r(3,4) by simp
qed

section \<open>Properties of sorting and of the coaching rule\<close>

lemma stable_sort_Nil [simp]: "stable_sort le [] = []"
  by (simp add: stable_sort_def)

lemma stable_sort_Cons [simp]: "stable_sort le (x # xs) = insert_by le x (stable_sort le xs)"
  by (simp add: stable_sort_def)

lemma set_insert_by [simp]: "set (insert_by le x ys) = insert x (set ys)"
  by (induction ys) auto

lemma set_stable_sort [simp]: "set (stable_sort le xs) = set xs"
  by (induction xs) auto

lemma length_insert_by [simp]: "length (insert_by le x ys) = Suc (length ys)"
  by (induction ys) auto

lemma length_stable_sort [simp]: "length (stable_sort le xs) = length xs"
  by (induction xs) auto

lemma distinct_insert_by [simp]: "distinct (insert_by le x ys) \<longleftrightarrow> x \<notin> set ys \<and> distinct ys"
  by (induction ys) auto

lemma distinct_stable_sort [simp]: "distinct (stable_sort le xs) = distinct xs"
  by (induction xs) auto

text \<open>Sorting by a comparison of keys.\<close>

lemma sorted_insert_by:
  assumes "sorted (map k ys)"
    and "\<forall>b\<in>set ys. le x b \<longleftrightarrow> k x \<le> (k b :: rat)"
  shows "sorted (map k (insert_by le x ys))"
  using assms by (induction ys) auto

lemma sorted_stable_sort:
  assumes "\<forall>a\<in>set xs. \<forall>b\<in>set xs. le a b \<longleftrightarrow> k a \<le> (k b :: rat)"
  shows "sorted (map k (stable_sort le xs))"
  using assms
proof (induction xs)
  case Nil
  then show ?case by simp
next
  case (Cons x xs)
  then have "sorted (map k (stable_sort le xs))" by simp
  then show ?case using Cons.prems by (simp add: sorted_insert_by)
qed

lemma set_argsort [simp]: "set (argsort items) = {0..<length items}"
  by (simp add: argsort_def)

lemma length_argsort [simp]: "length (argsort items) = length items"
  by (simp add: argsort_def)

lemma distinct_argsort [simp]: "distinct (argsort items)"
  by (simp add: argsort_def)

lemma sorted_argsort: "sorted (map (\<lambda>i. xs ! i) (argsort (map Num xs)))"
  unfolding argsort_def by (rule sorted_stable_sort) simp

text \<open>The sorting algorithm the program is run with sorts numbers.\<close>

lemma sorts_numbers_argsort: "sorts_numbers argsort"
  unfolding sorts_numbers_def using sorted_argsort by simp

lemma nargsort_ascending:
  assumes "set (sorter items) \<subseteq> {0..<length items}"
  shows "nargsort sorter True items = sorter items"
proof -
  have "map (\<lambda>i. [0..<length items] ! i) (sorter items) = map (\<lambda>i. i) (sorter items)"
    by (rule map_cong[OF refl]) (use assms in auto)
  then show ?thesis by (simp add: nargsort_def)
qed

text \<open>An ascending sort of a table whose rows all have a number in the column.\<close>

lemma sort_values_with_numbers:
  assumes "sorts_numbers sorter" and "\<forall>r\<in>set (body t). cell_of r c = Num (k r)"
  shows "sort_values_with sorter t c True
           = Inr (t\<lparr>body := map (\<lambda>i. body t ! i) (sorter (map (\<lambda>r. cell_of r c) (body t)))\<rparr>)"
    and "distinct (sorter (map (\<lambda>r. cell_of r c) (body t)))"
    and "set (sorter (map (\<lambda>r. cell_of r c) (body t))) = {0..<length (body t)}"
    and "sorted (map (\<lambda>i. k (body t ! i)) (sorter (map (\<lambda>r. cell_of r c) (body t))))"
proof -
  let ?items = "map (\<lambda>r. cell_of r c) (body t)"
  have items: "?items = map Num (map k (body t))"
    using assms(2) by simp
  from assms(1) have s: "distinct (sorter (map Num (map k (body t))))"
    "set (sorter (map Num (map k (body t)))) = {0..<length (map k (body t))}"
    "sorted (map (\<lambda>i. map k (body t) ! i) (sorter (map Num (map k (body t)))))"
    unfolding sorts_numbers_def by blast+
  show d: "distinct (sorter ?items)" unfolding items by (rule s(1))
  have "set (sorter ?items) = {0..<length (map k (body t))}" unfolding items by (rule s(2))
  then show e: "set (sorter ?items) = {0..<length (body t)}" by simp
  have "map (\<lambda>i. map k (body t) ! i) (sorter ?items) = map (\<lambda>i. k (body t ! i)) (sorter ?items)"
    by (rule map_cong[OF refl]) (use e in auto)
  moreover have "sorted (map (\<lambda>i. map k (body t) ! i) (sorter ?items))"
    unfolding items by (rule s(3))
  ultimately show "sorted (map (\<lambda>i. k (body t ! i)) (sorter ?items))" by (simp only:)
  have all: "filter (\<lambda>r. cell_of r c \<noteq> Missing) (body t) = body t"
    using assms(2) by (simp add: filter_id_conv)
  have none: "filter (\<lambda>r. cell_of r c = Missing) (body t) = []"
    using assms(2) by (simp add: filter_empty_conv)
  have sortable: "sortable ?items"
    unfolding sortable_def using assms(2) by (simp add: list_all_iff)
  have "nargsort sorter True ?items = sorter ?items"
    by (rule nargsort_ascending) (simp add: e)
  then show "sort_values_with sorter t c True
           = Inr (t\<lparr>body := map (\<lambda>i. body t ! i) (sorter ?items)\<rparr>)"
    using sortable by (simp add: sort_values_with_def all none Let_def)
qed

lemma revenue_of_amount: "revenue_of r \<noteq> None \<Longrightarrow> revenue_of r = Some (amount r)"
  by (cases "cell_of r ''Revenue''") (simp_all add: amount_def revenue_of_def addend_def)

lemma float_less_Some: "float_less a q \<Longrightarrow> \<exists>v. a = Some v"
  by (cases a; cases q) auto

lemma below_quantile_valued: "r \<in> set (below_quantile t) \<Longrightarrow> cell_of r ''Revenue'' = Num (amount r)"
proof -
  assume "r \<in> set (below_quantile t)"
  then have "\<exists>v. revenue_of r = Some v"
    by (auto simp: below_quantile_def Let_def dest: float_less_Some)
  then show ?thesis
    by (cases "cell_of r ''Revenue''") (auto simp: revenue_of_def amount_def addend_def)
qed

lemma below_quantile_subset: "set (below_quantile t) \<subseteq> set (body t)"
  by (auto simp: below_quantile_def Let_def)

lemma below_quantile_less:
  "r \<in> set (below_quantile t) \<Longrightarrow> float_less (revenue_of r) (quantile25 (map revenue_of (body t)))"
  by (auto simp: below_quantile_def Let_def)

lemma collect_text_of: "collect text_of cs = Inr names \<Longrightarrow> map Str names = cs"
proof (induction cs arbitrary: names)
  case Nil
  then show ?case by simp
next
  case (Cons c cs)
  then show ?case by (cases c) (auto split: sum.splits)
qed

text \<open>A column of numbers and missing cells, and its percentile.\<close>

lemma dtype_Float64_iff:
  "dtype_of cs = Float64 \<longleftrightarrow> (\<forall>c\<in>set cs. c = Missing \<or> (\<exists>x. c = Num x))"
proof -
  have "list_all (\<lambda>c. case c of Num x \<Rightarrow> True | Missing \<Rightarrow> True | _ \<Rightarrow> False) cs
          \<longleftrightarrow> (\<forall>c\<in>set cs. c = Missing \<or> (\<exists>x. c = Num x))"
  proof (induction cs)
    case Nil
    then show ?case by simp
  next
    case (Cons c cs)
    then show ?case by (cases c) auto
  qed
  then show ?thesis by (simp add: dtype_of_def)
qed

lemma collect_numeric_iff:
  "(\<exists>vs. collect numeric cs = Inr vs) \<longleftrightarrow> dtype_of cs = Float64"
  unfolding dtype_Float64_iff
proof (induction cs)
  case Nil
  then show ?case by simp
next
  case (Cons c cs)
  then show ?case by (cases c) (auto split: sum.splits)
qed

lemma collect_numeric_values:
  "collect numeric cs = Inr vs \<Longrightarrow> vs = map num_of cs"
proof (induction cs arbitrary: vs)
  case Nil
  then show ?case by simp
next
  case (Cons c cs)
  then show ?case by (cases c) (auto split: sum.splits)
qed

lemma quantile_Inr_iff:
  "quantile (column t ''Revenue'') = Inr q \<longleftrightarrow>
     dtype_of (column t ''Revenue'') = Float64 \<and> q = quantile25 (map revenue_of (body t))"
proof (cases "collect numeric (column t ''Revenue'')")
  case (Inl e)
  with collect_numeric_iff[of "column t ''Revenue''"] show ?thesis
    by (auto simp: quantile_def)
next
  case (Inr vs)
  have "map num_of (column t ''Revenue'') = map revenue_of (body t)"
    by (simp add: column_def revenue_of_def)
  with Inr collect_numeric_values[OF Inr] collect_numeric_iff[of "column t ''Revenue''"]
  show ?thesis by (auto simp: quantile_def)
qed

lemma quantile_raises:
  "dtype_of (column t ''Revenue'') \<noteq> Float64 \<Longrightarrow> \<exists>e. quantile (column t ''Revenue'') = Inl e"
  using quantile_Inr_iff[of t] by (cases "quantile (column t ''Revenue'')") auto

text \<open>
  The coaching rule on a table of numbers: the representatives below the percentile are
  put in ascending order of revenue by the sorting algorithm, and the first three of them
  are named.
\<close>

lemma coaching_numbers:
  assumes "sorts_numbers sorter" and "dtype_of (column t ''Revenue'') = Float64"
  defines "low \<equiv> below_quantile t"
  defines "idxs \<equiv> sorter (map (\<lambda>r. cell_of r ''Revenue'') low)"
  shows "coaching sorter t =
           (if low = [] then Inr []
            else andthen (collect text_of (map (\<lambda>i. cell_of (low ! i) ''Sales Rep'') (take 3 idxs)))
                   (\<lambda>small. Inr [Coaching small]))"
    and "distinct idxs" and "set idxs = {0..<length low}"
    and "sorted (map (\<lambda>i. amount (low ! i)) idxs)"
proof -
  let ?low = "t\<lparr>body := low\<rparr>"
  have q: "quantile (column t ''Revenue'') = Inr (quantile25 (map revenue_of (body t)))"
    using assms(2) by (simp add: quantile_Inr_iff)
  have nums: "\<forall>r\<in>set (body ?low). cell_of r ''Revenue'' = Num (amount r)"
    by (simp add: low_def below_quantile_valued)
  from sort_values_with_numbers[OF assms(1) nums]
  have sorted_low: "sort_values_with sorter ?low ''Revenue'' True
                      = Inr (?low\<lparr>body := map (\<lambda>i. low ! i) idxs\<rparr>)"
    and d: "distinct idxs" and s: "set idxs = {0..<length low}"
    and o: "sorted (map (\<lambda>i. amount (low ! i)) idxs)"
    by (simp_all add: idxs_def)
  show "distinct idxs" by (rule d)
  show "set idxs = {0..<length low}" by (rule s)
  show "sorted (map (\<lambda>i. amount (low ! i)) idxs)" by (rule o)
  have low: "filter (\<lambda>r. float_less (revenue_of r) (quantile25 (map revenue_of (body t)))) (body t) = low"
    by (simp add: low_def below_quantile_def)
  show "coaching sorter t =
           (if low = [] then Inr []
            else andthen (collect text_of (map (\<lambda>i. cell_of (low ! i) ''Sales Rep'') (take 3 idxs)))
                   (\<lambda>small. Inr [Coaching small]))"
    unfolding coaching_def q andthen_Inr Let_def low
    by (simp add: sorted_low take_map comp_def)
qed

text \<open>On a table with a text or a timestamp among its revenues the coaching rule raises.\<close>

lemma coaching_raises:
  "dtype_of (column t ''Revenue'') \<noteq> Float64 \<Longrightarrow> \<exists>e. coaching sorter t = Inl e"
  using quantile_raises[of t] by (auto simp: coaching_def)

text \<open>
  The tie of the scenario does not depend on the sorting algorithm: whichever order it
  gives the two equal values, the descending and the ascending sort start with the same
  row, so the two messages name one and the same channel.
\<close>

lemma sorter_pair:
  assumes "sorts_numbers sorter"
  shows "sorter [Num x, Num y] = [0, 1] \<or> sorter [Num x, Num y] = [1, 0]"
proof -
  define l where "l = sorter [Num x, Num y]"
  from assms have "distinct (sorter (map Num [x, y]))"
    and "set (sorter (map Num [x, y])) = {0..<length [x, y]}"
    unfolding sorts_numbers_def by blast+
  then have d: "distinct l" and s: "set l = {0..<Suc (Suc 0)}"
    by (simp_all add: l_def)
  have two: "{0..<Suc (Suc 0)} = {0, 1}" by auto
  from d have "length l = card (set l)" by (simp add: distinct_card)
  with s have "length l = Suc (Suc 0)" by simp
  then obtain a b where l: "l = [a, b]"
    by (auto simp: length_Suc_conv)
  with d s two have "a \<noteq> b" "{a, b} = {0, 1}" by auto
  then have "(a = 0 \<and> b = 1) \<or> (a = 1 \<and> b = 0)" by (auto simp: doubleton_eq_iff)
  with l show ?thesis by (auto simp: l_def)
qed

lemma tie_channels_table:
  "groupby_agg tie_dataset ''Channel''
     [revenue_sum, conversions_agg tie_dataset, order_size_agg ''AOV'' tie_dataset]
     = Inr \<lparr>columns = [''Channel'', ''Revenue'', ''Conversions'', ''AOV''],
            body = [[(''Channel'', Str ''A''), (''Revenue'', Num 150), (''Conversions'', Num 3),
                     (''AOV'', Num 75)],
                    [(''Channel'', Str ''B''), (''Revenue'', Num 350), (''Conversions'', Num 7),
                     (''AOV'', Num 175)]]\<rparr>"
  "with_rev_per_conv ''Rev_per_Conv''
     \<lparr>columns = [''Channel'', ''Revenue'', ''Conversions'', ''AOV''],
      body = [[(''Channel'', Str ''A''), (''Revenue'', Num 150), (''Conversions'', Num 3),
               (''AOV'', Num 75)],
              [(''Channel'', Str ''B''), (''Revenue'', Num 350), (''Conversions'', Num 7),
               (''AOV'', Num 175)]]\<rparr>
     = Inr tie_channels"
  by code_simp+

lemma tie_whatever_the_sort:
  assumes "sorts_numbers sorter"
  shows "\<exists>a. make_recommendations_with \<lparr>np_argsort = sorter, np_sum = sum_list\<rparr> tie_dataset =
               Inr [FocusInvestment a (Num 50), ReviewOptimize a (Num 50), InventoryNote]"
proof -
  let ?lib = "\<lparr>np_argsort = sorter, np_sum = sum_list\<rparr>"
  have cols: "''Channel'' \<in> set (columns tie_dataset)" "''Revenue'' \<in> set (columns tie_dataset)"
    "''Time of Day'' \<notin> set (columns tie_dataset)" "''Sales Rep'' \<notin> set (columns tie_dataset)"
    by (simp_all add: tie_dataset_def)
  have inv: "inventory_reminder tie_dataset = [InventoryNote]"
    by code_simp
  have either: "\<exists>r. andthen (sort_values_with sorter tie_channels ''Rev_per_Conv'' False) iloc0 = Inr r
              \<and> andthen (sort_values_with sorter tie_channels ''Rev_per_Conv'' True) iloc0 = Inr r
              \<and> cell_of r ''Rev_per_Conv'' = Num 50"
    using sorter_pair[OF assms, of 50 50]
    by (auto simp: sort_values_with_def sortable_def nargsort_def tie_channels_def cell_of_def
        iloc0_def Let_def)
  then obtain r where r: "andthen (sort_values_with sorter tie_channels ''Rev_per_Conv'' False) iloc0 = Inr r"
    "andthen (sort_values_with sorter tie_channels ''Rev_per_Conv'' True) iloc0 = Inr r"
    "cell_of r ''Rev_per_Conv'' = Num 50"
    by blast
  from r(1) obtain d where d: "sort_values_with sorter tie_channels ''Rev_per_Conv'' False = Inr d"
    "iloc0 d = Inr r"
    by (auto simp: andthen_def split: sum.splits)
  from r(2) obtain a where a: "sort_values_with sorter tie_channels ''Rev_per_Conv'' True = Inr a"
    "iloc0 a = Inr r"
    by (auto simp: andthen_def split: sum.splits)
  have "channel_insight_with ?lib tie_dataset =
          Inr [FocusInvestment (cell_of r ''Channel'') (Num 50),
               ReviewOptimize (cell_of r ''Channel'') (Num 50)]"
    unfolding channel_insight_with_def
    by (simp add: cols groupby_agg_def[symmetric] tie_channels_table d a r(3))
  moreover have "time_of_day_insight_with ?lib tie_dataset = Inr []"
    by (simp add: time_of_day_insight_with_def cols)
  moreover have "sales_rep_coaching_with ?lib tie_dataset = Inr []"
    by (simp add: sales_rep_coaching_with_def cols)
  ultimately show ?thesis
    by (simp add: make_recommendations_with_def inv)
qed

section \<open>Properties of the Filter Stage\<close>

lemma set_unique [simp]: "set (unique xs) = set xs"
  by (simp add: unique_def)

lemma distinct_unique [simp]: "distinct (unique xs)"
  by (simp add: unique_def)

lemma isin_filter_all:
  "c \<in> set (columns df) \<Longrightarrow> isin_filter df c (unique (column df c)) = Inr df"
proof -
  assume c: "c \<in> set (columns df)"
  have "filter (\<lambda>r. cell_of r c \<in> set (column df c)) (body df) = body df"
    by (auto simp: column_def filter_id_conv)
  with c show ?thesis by (simp add: isin_filter_def)
qed

lemma collect_stamp:
  "list_all date_only cs \<Longrightarrow>
     collect stamp cs = Inr (map (\<lambda>c. case c of Date t \<Rightarrow> Some t | _ \<Rightarrow> None) cs)"
  by (induction cs) (auto simp: date_only_def split: cell.splits)

lemma present_stamps:
  "Date t \<in> set cs \<Longrightarrow> t \<in> set (present (map (\<lambda>c. case c of Date t \<Rightarrow> Some t | _ \<Rightarrow> None) cs))"
  by (induction cs) (auto split: cell.splits)

lemma present_stamps_rev:
  "t \<in> set (present (map (\<lambda>c. case c of Date t \<Rightarrow> Some t | _ \<Rightarrow> None) cs)) \<Longrightarrow> Date t \<in> set cs"
  by (induction cs) (auto split: cell.splits)

lemma stamps_min_le:
  "t \<in> set (present ts) \<Longrightarrow> \<exists>m. stamps_min ts = Some m \<and> m \<le> t"
  by (cases "present ts") (auto simp: stamps_min_def Min.set_eq_fold[symmetric])

lemma stamps_max_ge:
  "t \<in> set (present ts) \<Longrightarrow> \<exists>m. stamps_max ts = Some m \<and> t \<le> m \<and> m \<in> set (present ts)"
proof (cases "present ts")
  case Nil
  assume "t \<in> set (present ts)"
  with Nil show ?thesis by simp
next
  case (Cons x xs)
  assume t: "t \<in> set (present ts)"
  have "fold max xs x = Max (set (x # xs))" by (rule Max.set_eq_fold[symmetric])
  moreover have "Max (set (x # xs)) \<in> set (x # xs)" by (rule Max_in) auto
  moreover have "t \<le> Max (set (x # xs))" using t Cons by (intro Max_ge) auto
  ultimately show ?thesis using Cons by (simp add: stamps_max_def)
qed

lemma in_range_default:
  assumes "list_all date_only cs" and "c \<in> set cs"
  defines "ts \<equiv> map (\<lambda>c. case c of Date t \<Rightarrow> Some t | _ \<Rightarrow> None) cs"
  shows "in_range (to_datetime (date_of (stamps_min ts))) (to_datetime (date_of (stamps_max ts))) c
           \<longleftrightarrow> c \<noteq> Missing"
proof (cases c)
  case (Date t)
  with assms(2) have "t \<in> set (present ts)" unfolding ts_def by (simp add: present_stamps)
  from stamps_min_le[OF this] stamps_max_ge[OF this]
  obtain m M where m: "stamps_min ts = Some m" "m \<le> t"
    and M: "stamps_max ts = Some M" "t \<le> M" "M \<in> set (present ts)" by blast
  from M(3) have "Date M \<in> set cs" unfolding ts_def by (rule present_stamps_rev)
  with assms(1) have "M mod 86400 = 0" by (auto simp: list_all_iff date_only_def)
  then have "M div 86400 * 86400 = M"
    using div_mult_mod_eq[of M 86400] by linarith
  moreover have "m div 86400 * 86400 \<le> m"
    using div_mult_mod_eq[of m 86400] pos_mod_sign[of 86400 m] by linarith
  ultimately show ?thesis using m M Date
    by (simp add: in_range_def to_datetime_def date_of_def)
next
  case Missing
  then show ?thesis by (simp add: in_range_def split: option.splits)
next
  case (Num x)
  with assms(1,2) show ?thesis by (auto simp: list_all_iff date_only_def)
next
  case (Str s)
  with assms(1,2) show ?thesis by (auto simp: list_all_iff date_only_def)
qed

lemma date_filter_select_all:
  assumes "list_all date_only (column df ''Date'')" and "''Date'' \<in> set (columns df)"
  shows "date_filter select_all df =
           Inr (df\<lparr>body := filter (\<lambda>r. cell_of r ''Date'' \<noteq> Missing) (body df)\<rparr>)"
proof -
  let ?ts = "map (\<lambda>c. case c of Date t \<Rightarrow> Some t | _ \<Rightarrow> None) (column df ''Date'')"
  have "filter (\<lambda>r. in_range (to_datetime (date_of (stamps_min ?ts)))
                       (to_datetime (date_of (stamps_max ?ts))) (cell_of r ''Date'')) (body df)
        = filter (\<lambda>r. cell_of r ''Date'' \<noteq> Missing) (body df)"
    by (rule filter_cong[OF refl]) (rule in_range_default[OF assms(1)], simp add: column_def)
  with assms show ?thesis
    by (simp add: date_filter_def collect_stamp select_all_def Let_def)
qed

lemma date_filter_select_none:
  assumes "list_all date_only (column df ''Date'')"
  shows "date_filter select_none df = Inr df"
  using assms by (simp add: date_filter_def collect_stamp select_none_def Let_def)

lemma pick_all:
  "andthen (options df c) (\<lambda>opts. andthen (if opts \<noteq> [] then isin_filter df c opts else Inr df) k)
     = k df"
  by (cases "c \<in> set (columns df)") (simp_all add: options_def isin_filter_all)

lemma pick_all_last:
  "andthen (options df c) (\<lambda>opts. if opts \<noteq> [] then isin_filter df c opts else Inr df) = Inr df"
  by (cases "c \<in> set (columns df)") (simp_all add: options_def isin_filter_all)

lemma filters_select_all_eq: "filters select_all df = date_filter select_all df"
proof (cases "date_filter select_all df")
  case (Inl e)
  then show ?thesis by (simp add: filters_def)
next
  case (Inr df1)
  have sel: "channel_select select_all = (\<lambda>opts. opts)" "customer_select select_all = (\<lambda>opts. opts)"
    "business_select select_all = (\<lambda>opts. opts)"
    by (simp_all add: select_all_def)
  show ?thesis
    unfolding filters_def Inr sel Let_def andthen_Inr pick_all
    by (simp add: pick_all_last)
qed

lemma pick_none:
  "andthen (options df c) (\<lambda>opts. k) = k"
  by (cases "c \<in> set (columns df)") (simp_all add: options_def)

lemma filters_select_none_eq: "filters select_none df = date_filter select_none df"
proof (cases "date_filter select_none df")
  case (Inl e)
  then show ?thesis by (simp add: filters_def)
next
  case (Inr df1)
  have sel: "channel_select select_none = (\<lambda>opts. [])" "customer_select select_none = (\<lambda>opts. [])"
    "business_select select_none = (\<lambda>opts. [])"
    by (simp_all add: select_none_def)
  show ?thesis
    unfolding filters_def Inr sel Let_def andthen_Inr
    by (simp add: pick_none)
qed

text \<open>
  Timestamps with a time of day: the default range ends at the midnight that begins the
  last day, so the later sales of that day are filtered out.
\<close>

lemma select_all_drops_last_day:
  "filters select_all one_day =
     Inr \<lparr>columns = [''Date'', ''Revenue''],
          body = [[(''Date'', Date 0), (''Revenue'', Num 10)]]\<rparr>"
  by code_simp

section \<open>Properties of the Aggregator\<close>

lemma collect_total: "\<forall>x\<in>set xs. f x = Inr (g x) \<Longrightarrow> collect f xs = Inr (map g xs)"
  by (induction xs) auto

lemma collect_list_all2: "collect f xs = Inr ys \<Longrightarrow> list_all2 (\<lambda>x y. f x = Inr y) xs ys"
proof (induction xs arbitrary: ys)
  case Nil
  then show ?case by simp
next
  case (Cons x xs)
  then show ?case by (auto split: sum.splits)
qed




text \<open>The sum of a group of a column of numbers, and of any group.\<close>

lemma sum_present_num_of: "sum_list (present (map num_of cs)) = sum_list (map addend cs)"
proof (induction cs)
  case Nil
  then show ?case by simp
next
  case (Cons c cs)
  then show ?case by (cases c) (auto simp: addend_def)
qed

lemma group_sum_Float64: "group_sum sum_list Float64 cs = Inr (Num (sum_list (map addend cs)))"
  by (simp add: group_sum_def sum_present_num_of)

lemma py_add_not_Missing: "py_add a b = Inr v \<Longrightarrow> v \<noteq> Missing"
  by (cases a; cases b) auto

lemma py_sum_not_Missing: "py_sum acc cs = Inr v \<Longrightarrow> acc \<noteq> Missing \<Longrightarrow> v \<noteq> Missing"
proof (induction cs arbitrary: acc)
  case Nil
  then show ?case by simp
next
  case (Cons c cs)
  then show ?case by (auto simp: andthen_def split: sum.splits dest: py_add_not_Missing)
qed

lemma group_sum_not_Missing: "group_sum summation d cs = Inr v \<Longrightarrow> v \<noteq> Missing"
proof (cases d)
  case Float64
  assume "group_sum summation d cs = Inr v"
  with Float64 show ?thesis by (auto simp: group_sum_def)
next
  case Datetime64
  assume "group_sum summation d cs = Inr v"
  with Datetime64 show ?thesis by (simp add: group_sum_def)
next
  case Object
  assume v: "group_sum summation d cs = Inr v"
  show ?thesis
  proof (cases "filter (\<lambda>c. c \<noteq> Missing) cs")
    case Nil
    with v Object show ?thesis by (auto simp: group_sum_def)
  next
    case (Cons c rest)
    then have "c \<in> set (filter (\<lambda>c. c \<noteq> Missing) cs)" by simp
    then have "c \<noteq> Missing" by simp
    moreover from v Object Cons have "py_sum c rest = Inr v" by (simp add: group_sum_def)
    ultimately show ?thesis by (rule py_sum_not_Missing[rotated])
  qed
qed

text \<open>A row of a grouped table carries the key of its group and the sum of its revenue cells.\<close>

lemma agg_group_revenue:
  assumes "agg_group summation df by (revenue_sum # specs) k = Inr g" and "by \<noteq> ''Revenue''"
  shows "cell_of g by = k"
    and "group_sum summation (dtype_of (column df ''Revenue''))
           (map (\<lambda>r. cell_of r ''Revenue'') (group_rows df by k)) = Inr (cell_of g ''Revenue'')"
  using assms
  by (auto simp: agg_group_def revenue_sum_def andthen_def cell_of_def split: sum.splits)

lemma groupby_agg_InrD:
  assumes "groupby_agg_with summation df by specs = Inr t"
  shows "by \<in> set (columns df)"
    and "collect (agg_group summation df by specs) (group_keys (column df by)) = Inr (body t)"
    and "columns t = by # map fst specs"
  using assms unfolding groupby_agg_with_def getcol_def andthen_def
  by (auto split: if_splits sum.splits)

lemma set_group_keys [simp]: "set (group_keys keys) = set keys - {Missing}"
  by (auto simp: group_keys_def)

lemma distinct_group_keys [simp]: "distinct (group_keys keys)"
  by (simp add: group_keys_def)

lemma groupby_agg_rows:
  assumes "groupby_agg_with summation df by (revenue_sum # specs) = Inr t" and "by \<noteq> ''Revenue''"
  shows "list_all2 (\<lambda>k g. cell_of g by = k
            \<and> group_sum summation (dtype_of (column df ''Revenue''))
                (map (\<lambda>r. cell_of r ''Revenue'') (group_rows df by k)) = Inr (cell_of g ''Revenue''))
           (group_keys (column df by)) (body t)"
proof -
  from groupby_agg_InrD(2)[OF assms(1)]
  have "list_all2 (\<lambda>k g. agg_group summation df by (revenue_sum # specs) k = Inr g)
          (group_keys (column df by)) (body t)"
    by (rule collect_list_all2)
  then show ?thesis
    by (rule list_all2_mono) (use agg_group_revenue[OF _ assms(2)] in blast)
qed

lemma groupby_agg_keys:
  assumes "groupby_agg_with summation df by (revenue_sum # specs) = Inr t" and "by \<noteq> ''Revenue''"
  shows "column t by = group_keys (column df by)"
proof -
  have "list_all2 (\<lambda>k g. cell_of g by = k) (group_keys (column df by)) (body t)"
    by (rule list_all2_mono[OF groupby_agg_rows[OF assms]]) simp
  then have "list_all2 (\<lambda>k g. k = cell_of g by) (group_keys (column df by)) (body t)"
    by (rule list_all2_mono) simp
  then have "group_keys (column df by) = map (\<lambda>g. cell_of g by) (body t)"
    by (simp add: list_all2_conv_all_nth list_eq_iff_nth_eq)
  then show ?thesis by (simp add: column_def)
qed

lemma groupby_agg_row_revenue:
  assumes "groupby_agg_with summation df by (revenue_sum # specs) = Inr t" and "by \<noteq> ''Revenue''"
    and "g \<in> set (body t)"
  shows "group_sum summation (dtype_of (column df ''Revenue''))
           (map (\<lambda>r. cell_of r ''Revenue'') (group_rows df by (cell_of g by)))
           = Inr (cell_of g ''Revenue'')"
proof -
  from assms(3) obtain i where i: "i < length (body t)" "body t ! i = g"
    by (auto simp: in_set_conv_nth)
  from groupby_agg_rows[OF assms(1,2)] i show ?thesis
    by (auto simp: list_all2_conv_all_nth)
qed


text \<open>The table of revenue sums is produced on any revenue column of numbers.\<close>

lemma groupby_agg_revenue_numbers:
  assumes "by \<in> set (columns df)" and "''Revenue'' \<in> set (columns df)"
    and "dtype_of (column df ''Revenue'') = Float64"
  shows "groupby_agg df by [revenue_sum] =
           Inr \<lparr>columns = [by, ''Revenue''],
                body = map (\<lambda>k. [(by, k), (''Revenue'', Num (sum_list (map amount (group_rows df by k))))])
                         (group_keys (column df by))\<rparr>"
proof -
  have "agg_group sum_list df by [revenue_sum] k
          = Inr [(by, k), (''Revenue'', Num (sum_list (map amount (group_rows df by k))))]" for k
    using assms(3) by (simp add: agg_group_def revenue_sum_def group_sum_Float64 comp_def amount_def[abs_def])
  then have "collect (agg_group sum_list df by [revenue_sum]) ks
          = Inr (map (\<lambda>k. [(by, k), (''Revenue'', Num (sum_list (map amount (group_rows df by k))))]) ks)" for ks
    by (intro collect_total) simp
  with assms(1,2) show ?thesis
    by (simp add: groupby_agg_def groupby_agg_with_def revenue_sum_def)
qed





text \<open>
  On a dataset whose revenue and conversion cells are numbers or missing the table of the
  representatives is produced, with numbers as revenues, and when the names of the
  representatives are texts the coaching rule returns.
\<close>

lemma collect_text_of_total:
  "\<forall>c\<in>set cs. \<exists>s. c = Str s \<Longrightarrow> \<exists>names. collect text_of cs = Inr names"
  by (induction cs) auto

lemma rep_table_numbers:
  assumes "''Sales Rep'' \<in> set (columns df)" and "''Revenue'' \<in> set (columns df)"
    and "dtype_of (column df ''Revenue'') = Float64"
    and "dtype_of (column df ''Conversions'') = Float64"
  shows "\<exists>t. groupby_agg_with summation df ''Sales Rep'' [revenue_sum, conversions_agg df] = Inr t"
proof -
  have "\<exists>g. agg_group summation df ''Sales Rep'' [revenue_sum, conversions_agg df] k = Inr g" for k
    using assms(3,4)
    by (simp add: agg_group_def revenue_sum_def conversions_agg_def group_sum_def)
  then obtain g where "\<forall>k. agg_group summation df ''Sales Rep'' [revenue_sum, conversions_agg df] k = Inr (g k)"
    by metis
  then have "collect (agg_group summation df ''Sales Rep'' [revenue_sum, conversions_agg df]) ks
               = Inr (map g ks)" for ks
    by (intro collect_total) simp
  with assms(1,2) show ?thesis
    by (simp add: groupby_agg_with_def revenue_sum_def conversions_agg_def)
qed

lemma rep_table_revenue_numbers:
  assumes "groupby_agg_with summation df by (revenue_sum # specs) = Inr t" and "by \<noteq> ''Revenue''"
    and "dtype_of (column df ''Revenue'') = Float64"
  shows "dtype_of (column t ''Revenue'') = Float64"
proof -
  have "\<exists>x. cell_of g ''Revenue'' = Num x" if "g \<in> set (body t)" for g
  proof -
    from groupby_agg_row_revenue[OF assms(1,2) that] assms(3)
    have "\<exists>x. Num x = cell_of g ''Revenue''"
      by (simp add: group_sum_def, blast)
    then show ?thesis by metis
  qed
  then show ?thesis
    by (auto simp: dtype_Float64_iff column_def)
qed

lemma sales_rep_coaching_returns:
  assumes "sorts_numbers (np_argsort lib)"
    and "''Sales Rep'' \<in> set (columns df)" and "''Revenue'' \<in> set (columns df)"
    and "dtype_of (column df ''Revenue'') = Float64"
    and "dtype_of (column df ''Conversions'') = Float64"
    and "list_all (\<lambda>c. case c of Str s \<Rightarrow> True | Missing \<Rightarrow> True | _ \<Rightarrow> False)
           (column df ''Sales Rep'')"
  shows "\<exists>r. sales_rep_coaching_with lib df = Inr r"
proof -
  from rep_table_numbers[OF assms(2,3,4,5)] obtain t where
    t: "groupby_agg_with (np_sum lib) df ''Sales Rep'' [revenue_sum, conversions_agg df] = Inr t"
    by blast
  have n: "''Sales Rep'' \<noteq> ''Revenue''" by simp
  have numbers: "dtype_of (column t ''Revenue'') = Float64"
    by (rule rep_table_revenue_numbers[OF t n assms(4)])
  have keys: "column t ''Sales Rep'' = group_keys (column df ''Sales Rep'')"
    by (rule groupby_agg_keys[OF t n])
  have names: "\<exists>s. cell_of g ''Sales Rep'' = Str s" if "g \<in> set (body t)" for g
  proof -
    from that have "cell_of g ''Sales Rep'' \<in> set (column t ''Sales Rep'')"
      by (auto simp: column_def)
    then have "cell_of g ''Sales Rep'' \<in> set (column df ''Sales Rep'')"
      and "cell_of g ''Sales Rep'' \<noteq> Missing"
      by (simp_all add: keys)
    with assms(6) show ?thesis
      by (cases "cell_of g ''Sales Rep''") (auto simp: list_all_iff)
  qed
  define low where "low = below_quantile t"
  define idxs where "idxs = np_argsort lib (map (\<lambda>r. cell_of r ''Revenue'') low)"
  from coaching_numbers[OF assms(1) numbers]
  have rule: "coaching (np_argsort lib) t =
           (if low = [] then Inr []
            else andthen (collect text_of (map (\<lambda>i. cell_of (low ! i) ''Sales Rep'') (take 3 idxs)))
                   (\<lambda>small. Inr [Coaching small]))"
    and s: "set idxs = {0..<length low}"
    by (simp_all add: low_def idxs_def)
  have "\<forall>c\<in>set (map (\<lambda>i. cell_of (low ! i) ''Sales Rep'') (take 3 idxs)). \<exists>s. c = Str s"
  proof
    fix c assume "c \<in> set (map (\<lambda>i. cell_of (low ! i) ''Sales Rep'') (take 3 idxs))"
    then obtain i where i: "i \<in> set (take 3 idxs)" and c: "c = cell_of (low ! i) ''Sales Rep''"
      by auto
    from i have "i \<in> set idxs" by (rule in_set_takeD)
    with s have "low ! i \<in> set low" by simp
    then have "low ! i \<in> set (body t)"
      using below_quantile_subset[of t] by (auto simp: low_def)
    from names[OF this] c show "\<exists>s. c = Str s" by simp
  qed
  from collect_text_of_total[OF this] obtain small where
    "collect text_of (map (\<lambda>i. cell_of (low ! i) ''Sales Rep'') (take 3 idxs)) = Inr small"
    by blast
  with rule have "\<exists>r. coaching (np_argsort lib) t = Inr r" by simp
  with t assms(2,3) show ?thesis
    by (simp add: sales_rep_coaching_with_def)
qed

section \<open>Properties of a dataset without rows\<close>

lemma column_no_rows [simp]: "body df = [] \<Longrightarrow> column df c = []"
  by (simp add: column_def)


lemma groupby_agg_no_rows:
  assumes "body df = []" and "groupby_agg df by specs = Inr t"
  shows "body t = []"
  using assms unfolding groupby_agg_def groupby_agg_with_def getcol_def andthen_def
  by (auto simp: group_keys_def unique_def split: if_splits sum.splits)

lemma sort_values_no_rows:
  assumes "body t = []" and "sort_values t c asc = Inr s"
  shows "body s = []"
  using assms
  by (auto simp: sort_values_def sort_values_with_def nargsort_def argsort_def Let_def
      split: if_splits)

lemma top_table_no_rows:
  assumes "body df = []" and "top_table df by = Inr t"
  shows "body t = []"
proof (cases "by \<in> set (columns df)")
  case True
  with assms(2) obtain t0 where t0: "groupby_agg df by [revenue_sum] = Inr t0"
    and t: "sort_values t0 ''Revenue'' False = Inr t"
    unfolding top_table_def andthen_def by (auto split: sum.splits)
  from groupby_agg_no_rows[OF assms(1) t0] t show ?thesis by (rule sort_values_no_rows)
next
  case False
  with assms(2) show ?thesis by (auto simp: top_table_def)
qed


text \<open>
  On the dataset a date range without sales leaves, the channel rule of the
  recommendations raises (line 70), so the script does not reach the export.
\<close>

lemma recommendations_of_filtered_empty:
  "make_recommendations filtered_empty = Inl IndexError"
  by code_simp

text \<open>The scenario of the specification, evaluated.\<close>

lemma tie_metrics_computed: "compute_metrics pf tie_dataset = Inr tie_metrics"
  by (simp add: compute_metrics_Inr column_total_def sum_failures_as_zero_def column_def
      tie_dataset_def tie_metrics_def coerces_def contribution_def cell_of_def len_def)

lemma tie_recommendations:
  "make_recommendations tie_dataset =
     Inr [FocusInvestment (Str ''A'') (Num 50), ReviewOptimize (Str ''A'') (Num 50),
          InventoryNote]"
  by code_simp

section \<open>The claims\<close>

text \<open>
  C1 (as the program has it).  The Metrics Engine returns for every dataset and every
  behaviour of the text-to-float coercion.  Revenue is the total of the \<^verbatim>\<open>Revenue\<close>
  column: its sum when the column is present and every cell coerces, and 0 when the column
  is absent or any cell fails to coerce; the conversions total is formed likewise.  Orders
  is the conversions total when positive, else the row count.  The average order value is
  revenue over orders when orders is positive, else the mean of \<^verbatim>\<open>Average Order Size\<close> when
  that column is present, else 0; the fall-back is reached on a dataset without rows only.
  The conversion rate is the conversions total over the row count when the column is
  present and there are rows, else undefined.
\<close>

theorem compute_metrics_formulas:
  "\<exists>m. compute_metrics pf df = Inr m
     \<and> revenue m = column_total pf df ''Revenue''
     \<and> orders m = (if 0 < column_total pf df ''Conversions''
                   then column_total pf df ''Conversions'' else of_nat (len df))
     \<and> Inr (aov m) = (if 0 < orders m then Inr (Some (revenue m / orders m))
                      else if ''Average Order Size'' \<in> set (columns df)
                      then series_mean (column df ''Average Order Size'')
                      else Inr (Some 0))
     \<and> (0 < orders m \<or> len df = 0)
     \<and> conv_rate m = (if ''Conversions'' \<in> set (columns df) \<and> 0 < len df
                      then Some (column_total pf df ''Conversions'' / of_nat (len df))
                      else None)
     \<and> rows m = len df"
  by (auto simp: compute_metrics_Inr len_def column_def series_mean_def nanmean_def)

text \<open>
  C1 as stated fails: with the revenue cells 100 and \<^verbatim>\<open>abc\<close> the failing cell does not
  contribute zero to a sum of 100; the program returns revenue 0.
\<close>

theorem compute_metrics_mixed_column:
  "compute_metrics rejects mixed_revenue =
     Inr \<lparr>revenue = 0, orders = 2, aov = Some 0, conv_rate = None, rows = 2\<rparr>
   \<and> sum_failures_as_zero rejects (column mixed_revenue ''Revenue'') = 100"
  by (simp add: compute_metrics_Inr column_total_def sum_failures_as_zero_def column_def
      mixed_revenue_def rejects_def coerces_def contribution_def cell_of_def len_def)

text \<open>
  C2 (as the program has it).  On the four rows of the scenario the metrics are revenue
  500, orders 10, average order value 50 and conversion rate 2.5.  Both channels have 50 of
  revenue per conversion, and the recommendations name channel A in the invest-more
  message and channel A again in the review message.  (By \<open>tie_whatever_the_sort\<close> the two
  messages name one and the same channel under any sorting algorithm.)
\<close>

theorem tie_scenario:
  "compute_metrics pf tie_dataset =
     Inr \<lparr>revenue = 500, orders = 10, aov = Some 50, conv_rate = Some (5 / 2), rows = 4\<rparr>
   \<and> make_recommendations tie_dataset =
     Inr [FocusInvestment (Str ''A'') (Num 50), ReviewOptimize (Str ''A'') (Num 50),
          InventoryNote]"
  using tie_metrics_computed [of pf] by (simp add: tie_metrics_def tie_recommendations)

text \<open>
  C2 as stated fails: the two messages do not name different channels.
\<close>

theorem tie_names_one_channel:
  "make_recommendations tie_dataset =
     Inr [FocusInvestment (Str ''A'') (Num 50), ReviewOptimize (Str ''A'') (Num 50),
          InventoryNote]
   \<and> \<not> (\<exists>a b x y more. a \<noteq> b \<and> make_recommendations tie_dataset =
           Inr (FocusInvestment a x # ReviewOptimize b y # more))"
  by (simp add: tie_recommendations)

text \<open>
  C3 fails on the program.  On a dataset with a channel, a date, a time of day and a
  customer type but no revenue column, the channel funnel, the weekly trend, the
  time-of-day breakdown and the customer segmentation each raise \<^verbatim>\<open>KeyError\<close>, and so does
  the channel table prepared for the reports; none of them shows its unavailable message,
  as the sales-rep section does.
\<close>

theorem sections_raise_without_revenue:
  "chan no_revenue_dataset = Inl KeyError
   \<and> df_week no_revenue_dataset = Inl KeyError
   \<and> tod no_revenue_dataset = Inl KeyError
   \<and> cust no_revenue_dataset = Inl KeyError
   \<and> top_table no_revenue_dataset ''Channel'' = Inl KeyError
   \<and> rep no_revenue_dataset = Inr Unavailable"
  by code_simp

text \<open>
  C4 (as the program has it).  On a loaded dataset whose dates carry no time of day: with
  every filter at its select-all default the Filter Stage returns the rows whose date is
  present, all rows when there is no \<^verbatim>\<open>Date\<close> column, so rows with a missing category are
  kept and rows with an unparsed date are not; with empty selections it returns the
  dataset as it is.
\<close>

theorem filters_select_all:
  assumes "list_all date_only (column df ''Date'')"
  shows "filters select_all df =
           Inr (if ''Date'' \<in> set (columns df)
                then df\<lparr>body := filter (\<lambda>r. cell_of r ''Date'' \<noteq> Missing) (body df)\<rparr>
                else df)
         \<and> filters select_none df = Inr df"
proof -
  have "date_filter select_all df =
           Inr (if ''Date'' \<in> set (columns df)
                then df\<lparr>body := filter (\<lambda>r. cell_of r ''Date'' \<noteq> Missing) (body df)\<rparr>
                else df)"
    using date_filter_select_all[OF assms] by (simp add: date_filter_def)
  moreover have "date_filter select_none df = Inr df"
    by (rule date_filter_select_none[OF assms])
  ultimately show ?thesis
    by (simp only: filters_select_all_eq filters_select_none_eq simp_thms)
qed

theorem filters_select_all_witness:
  "list_all date_only (column three_sales ''Date'')
   \<and> filters select_all three_sales = Inr (three_sales\<lparr>body := take 2 (body three_sales)\<rparr>)
   \<and> filters select_none three_sales = Inr three_sales"
proof -
  have h: "list_all date_only (column three_sales ''Date'')"
    by code_simp
  have "(if ''Date'' \<in> set (columns three_sales)
         then three_sales\<lparr>body := filter (\<lambda>r. cell_of r ''Date'' \<noteq> Missing) (body three_sales)\<rparr>
         else three_sales) = three_sales\<lparr>body := take 2 (body three_sales)\<rparr>"
    by (simp add: three_sales_def cell_of_def)
  with h filters_select_all [OF h] show ?thesis by simp
qed

text \<open>
  C4 as stated fails: of two rows, one with an unparsed date, the select-all default
  keeps one.
\<close>

theorem select_all_drops_unparsed_date:
  "filters select_all unparsed_date =
     Inr \<lparr>columns = [''Date'', ''Revenue''],
          body = [[(''Date'', Date 0), (''Revenue'', Num 10)]]\<rparr>
   \<and> len unparsed_date = 2"
  by code_simp




text \<open>
  C6 fails on the program.  On a dataset with the columns \<^verbatim>\<open>Channel\<close> and \<^verbatim>\<open>Revenue\<close> and no
  row, and on one whose channel cells are all missing, no column carries an inventory
  name, yet the Recommendation Generator raises \<^verbatim>\<open>IndexError\<close> and emits nothing, the
  inventory note included.
\<close>

theorem recommendations_raise_without_groups:
  "make_recommendations no_rows = Inl IndexError
   \<and> make_recommendations blank_channels = Inl IndexError
   \<and> \<not> list_ex (\<lambda>c. lower c \<in> set inventory_names) (columns no_rows)"
  by code_simp

text \<open>
  C7.  On a dataset with the columns \<^verbatim>\<open>Sales Rep\<close> and \<^verbatim>\<open>Revenue\<close>, under any sorting
  algorithm and any rounding of the sums.  The coaching rule returns when the revenue and
  conversion cells are numbers or missing and the names are texts.  Whenever it returns:
  the per-representative table carries the summed revenue of each representative; the
  representatives below the threshold are the rows of that table whose summed revenue is
  strictly below the 25th percentile of the summed revenues; when there is none the rule
  gives no message; when there is one it gives exactly one coaching message, which names
  the first three (all, when they are fewer) of the representatives below the threshold
  taken in ascending order of summed revenue.  Whenever the recommendations are produced,
  their coaching messages are what the rule gives.
\<close>

theorem coaching_recommendation:
  assumes "sorts_numbers (np_argsort lib)"
    and "''Sales Rep'' \<in> set (columns df)" and "''Revenue'' \<in> set (columns df)"
  shows "(dtype_of (column df ''Revenue'') = Float64
            \<and> dtype_of (column df ''Conversions'') = Float64
            \<and> list_all (\<lambda>c. case c of Str s \<Rightarrow> True | Missing \<Rightarrow> True | _ \<Rightarrow> False)
                 (column df ''Sales Rep'')
          \<longrightarrow> (\<exists>r. sales_rep_coaching_with lib df = Inr r))
         \<and> (\<forall>recs. make_recommendations_with lib df = Inr recs
               \<longrightarrow> sales_rep_coaching_with lib df = Inr (filter is_coaching recs))
         \<and> (\<forall>r. sales_rep_coaching_with lib df = Inr r \<longrightarrow>
              (\<exists>t low idxs.
                 groupby_agg_with (np_sum lib) df ''Sales Rep'' [revenue_sum, conversions_agg df]
                   = Inr t
               \<and> (\<forall>g\<in>set (body t).
                     revenue_of g = Some (amount g)
                   \<and> group_sum (np_sum lib) (dtype_of (column df ''Revenue''))
                       (map (\<lambda>r. cell_of r ''Revenue'')
                          (group_rows df ''Sales Rep'' (cell_of g ''Sales Rep'')))
                       = Inr (Num (amount g)))
               \<and> low = filter (\<lambda>g. float_less (revenue_of g)
                                      (quantile25 (map revenue_of (body t)))) (body t)
               \<and> distinct idxs \<and> set idxs = {0..<length low}
               \<and> sorted (map (\<lambda>i. amount (low ! i)) idxs)
               \<and> (if low = [] then r = []
                  else \<exists>names. r = [Coaching names]
                         \<and> length names = min 3 (length low)
                         \<and> map Str names
                             = map (\<lambda>i. cell_of (low ! i) ''Sales Rep'') (take 3 idxs))))"
proof (intro conjI allI impI)
  assume "dtype_of (column df ''Revenue'') = Float64
            \<and> dtype_of (column df ''Conversions'') = Float64
            \<and> list_all (\<lambda>c. case c of Str s \<Rightarrow> True | Missing \<Rightarrow> True | _ \<Rightarrow> False)
                 (column df ''Sales Rep'')"
  then show "\<exists>r. sales_rep_coaching_with lib df = Inr r"
    using sales_rep_coaching_returns[OF assms] by blast
next
  fix recs assume "make_recommendations_with lib df = Inr recs"
  then show "sales_rep_coaching_with lib df = Inr (filter is_coaching recs)"
    by (rule coaching_messages)
next
  fix r assume "sales_rep_coaching_with lib df = Inr r"
  with assms(2,3)
  have "andthen (groupby_agg_with (np_sum lib) df ''Sales Rep'' [revenue_sum, conversions_agg df])
          (coaching (np_argsort lib)) = Inr r"
    by (simp add: sales_rep_coaching_with_def)
  then obtain t where
    t: "groupby_agg_with (np_sum lib) df ''Sales Rep'' [revenue_sum, conversions_agg df] = Inr t"
    and c: "coaching (np_argsort lib) t = Inr r"
    by (auto simp: andthen_def split: sum.splits)
  have numbers: "dtype_of (column t ''Revenue'') = Float64"
    using coaching_raises[of t "np_argsort lib"] c by auto
  define low where "low = below_quantile t"
  define idxs where "idxs = np_argsort lib (map (\<lambda>r. cell_of r ''Revenue'') low)"
  have low: "low = filter (\<lambda>g. float_less (revenue_of g) (quantile25 (map revenue_of (body t))))
                     (body t)"
    by (simp add: low_def below_quantile_def)
  from coaching_numbers[OF assms(1) numbers] c
  have rule: "Inr r =
           (if low = [] then Inr []
            else andthen (collect text_of (map (\<lambda>i. cell_of (low ! i) ''Sales Rep'') (take 3 idxs)))
                   (\<lambda>small. Inr [Coaching small]))"
    and d: "distinct idxs" and s: "set idxs = {0..<length low}"
    and o: "sorted (map (\<lambda>i. amount (low ! i)) idxs)"
    by (simp_all add: low_def idxs_def)
  have len: "length idxs = length low"
    using distinct_card[OF d] s by simp
  have rows: "\<forall>g\<in>set (body t).
               revenue_of g = Some (amount g)
             \<and> group_sum (np_sum lib) (dtype_of (column df ''Revenue''))
                 (map (\<lambda>r. cell_of r ''Revenue'')
                    (group_rows df ''Sales Rep'' (cell_of g ''Sales Rep'')))
                 = Inr (Num (amount g))"
  proof
    fix g assume g: "g \<in> set (body t)"
    have n: "''Sales Rep'' \<noteq> ''Revenue''" by simp
    from groupby_agg_row_revenue[OF t n g]
    have sum: "group_sum (np_sum lib) (dtype_of (column df ''Revenue''))
                 (map (\<lambda>r. cell_of r ''Revenue'')
                    (group_rows df ''Sales Rep'' (cell_of g ''Sales Rep'')))
                 = Inr (cell_of g ''Revenue'')" .
    then have "cell_of g ''Revenue'' \<noteq> Missing" by (rule group_sum_not_Missing)
    moreover from numbers g have "cell_of g ''Revenue'' = Missing \<or> (\<exists>x. cell_of g ''Revenue'' = Num x)"
      by (auto simp: dtype_Float64_iff column_def)
    ultimately obtain x where x: "cell_of g ''Revenue'' = Num x" by blast
    then have "cell_of g ''Revenue'' = Num (amount g)" by (simp add: amount_def addend_def)
    with sum show "revenue_of g = Some (amount g)
             \<and> group_sum (np_sum lib) (dtype_of (column df ''Revenue''))
                 (map (\<lambda>r. cell_of r ''Revenue'')
                    (group_rows df ''Sales Rep'' (cell_of g ''Sales Rep'')))
                 = Inr (Num (amount g))"
      by (simp add: revenue_of_def)
  qed
  have shape: "if low = [] then r = []
            else \<exists>names. r = [Coaching names]
                   \<and> length names = min 3 (length low)
                   \<and> map Str names = map (\<lambda>i. cell_of (low ! i) ''Sales Rep'') (take 3 idxs)"
  proof (cases "low = []")
    case True
    with rule show ?thesis by simp
  next
    case False
    with rule obtain names where
      names: "collect text_of (map (\<lambda>i. cell_of (low ! i) ''Sales Rep'') (take 3 idxs)) = Inr names"
      and r: "r = [Coaching names]"
      by (auto simp: andthen_def split: sum.splits)
    from collect_text_of[OF names]
    have m: "map Str names = map (\<lambda>i. cell_of (low ! i) ''Sales Rep'') (take 3 idxs)" .
    from arg_cong[OF m, of length] len have "length names = min 3 (length low)"
      by (simp add: min.commute)
    with False r m show ?thesis by simp
  qed
  from t rows low d s o shape
  show "\<exists>t low idxs.
          groupby_agg_with (np_sum lib) df ''Sales Rep'' [revenue_sum, conversions_agg df] = Inr t
        \<and> (\<forall>g\<in>set (body t).
              revenue_of g = Some (amount g)
            \<and> group_sum (np_sum lib) (dtype_of (column df ''Revenue''))
                (map (\<lambda>r. cell_of r ''Revenue'')
                   (group_rows df ''Sales Rep'' (cell_of g ''Sales Rep'')))
                = Inr (Num (amount g)))
        \<and> low = filter (\<lambda>g. float_less (revenue_of g)
                               (quantile25 (map revenue_of (body t)))) (body t)
        \<and> distinct idxs \<and> set idxs = {0..<length low}
        \<and> sorted (map (\<lambda>i. amount (low ! i)) idxs)
        \<and> (if low = [] then r = []
           else \<exists>names. r = [Coaching names]
                  \<and> length names = min 3 (length low)
                  \<and> map Str names
                      = map (\<lambda>i. cell_of (low ! i) ''Sales Rep'') (take 3 idxs))"
    by blast
qed

theorem coaching_recommendation_witness:
  "sorts_numbers (np_argsort reference)
   \<and> ''Sales Rep'' \<in> set (columns seventeen_reps) \<and> ''Revenue'' \<in> set (columns seventeen_reps)
   \<and> dtype_of (column seventeen_reps ''Revenue'') = Float64
   \<and> dtype_of (column seventeen_reps ''Conversions'') = Float64
   \<and> list_all (\<lambda>c. case c of Str s \<Rightarrow> True | Missing \<Rightarrow> True | _ \<Rightarrow> False)
        (column seventeen_reps ''Sales Rep'')
   \<and> make_recommendations seventeen_reps =
       Inr [Coaching [''Pam'', ''Bob'', ''Max''], InventoryNote]
   \<and> sales_rep_coaching_with reference seventeen_reps = Inr [Coaching [''Pam'', ''Bob'', ''Max'']]
   \<and> (\<exists>t low idxs.
          groupby_agg seventeen_reps ''Sales Rep'' [revenue_sum, conversions_agg seventeen_reps]
            = Inr t
        \<and> low = filter (\<lambda>g. float_less (revenue_of g) (quantile25 (map revenue_of (body t))))
                  (body t)
        \<and> map (\<lambda>g. cell_of g ''Sales Rep'') low = [Str ''Bob'', Str ''Eve'', Str ''Max'', Str ''Pam'']
        \<and> map amount low = [10, 20, 15, 5]
        \<and> distinct idxs \<and> set idxs = {0..<4}
        \<and> sorted (map (\<lambda>i. amount (low ! i)) idxs)
        \<and> map Str [''Pam'', ''Bob'', ''Max''] = map (\<lambda>i. cell_of (low ! i) ''Sales Rep'') (take 3 idxs))"
proof -
  have v: "sorts_numbers (np_argsort reference)"
    by (simp add: reference_def sorts_numbers_argsort)
  have c: "''Sales Rep'' \<in> set (columns seventeen_reps)" "''Revenue'' \<in> set (columns seventeen_reps)"
    by (simp_all add: seventeen_reps_def)
  have w: "dtype_of (column seventeen_reps ''Revenue'') = Float64
         \<and> dtype_of (column seventeen_reps ''Conversions'') = Float64
         \<and> list_all (\<lambda>c. case c of Str s \<Rightarrow> True | Missing \<Rightarrow> True | _ \<Rightarrow> False)
              (column seventeen_reps ''Sales Rep'')"
    by code_simp
  have h: "make_recommendations_with reference seventeen_reps =
             Inr [Coaching [''Pam'', ''Bob'', ''Max''], InventoryNote]"
    by code_simp
  have b: "andthen (groupby_agg seventeen_reps ''Sales Rep''
                      [revenue_sum, conversions_agg seventeen_reps])
             (\<lambda>t. Inr (map (\<lambda>g. (cell_of g ''Sales Rep'', amount g))
                          (filter (\<lambda>g. float_less (revenue_of g)
                                          (quantile25 (map revenue_of (body t)))) (body t))))
           = Inr [(Str ''Bob'', 10), (Str ''Eve'', 20), (Str ''Max'', 15), (Str ''Pam'', 5)]"
    by code_simp
  note rule = coaching_recommendation [OF v c]
  from rule w obtain r0 where "sales_rep_coaching_with reference seventeen_reps = Inr r0"
    by blast
  from rule h have r: "sales_rep_coaching_with reference seventeen_reps
                        = Inr (filter is_coaching [Coaching [''Pam'', ''Bob'', ''Max''], InventoryNote])"
    by blast
  then have r': "sales_rep_coaching_with reference seventeen_reps
                   = Inr [Coaching [''Pam'', ''Bob'', ''Max'']]"
    by simp
  from rule r' obtain t low idxs where
    t: "groupby_agg_with (np_sum reference) seventeen_reps ''Sales Rep''
          [revenue_sum, conversions_agg seventeen_reps] = Inr t"
    and low: "low = filter (\<lambda>g. float_less (revenue_of g) (quantile25 (map revenue_of (body t))))
                      (body t)"
    and d: "distinct idxs" and s: "set idxs = {0..<length low}"
    and o: "sorted (map (\<lambda>i. amount (low ! i)) idxs)"
    and shape: "if low = [] then [Coaching [''Pam'', ''Bob'', ''Max'']] = []
            else \<exists>names. [Coaching [''Pam'', ''Bob'', ''Max'']] = [Coaching names]
                   \<and> length names = min 3 (length low)
                   \<and> map Str names = map (\<lambda>i. cell_of (low ! i) ''Sales Rep'') (take 3 idxs)"
    by blast
  from t have t': "groupby_agg seventeen_reps ''Sales Rep''
          [revenue_sum, conversions_agg seventeen_reps] = Inr t"
    by (simp add: groupby_agg_def reference_def)
  from b t' low have pairs: "map (\<lambda>g. (cell_of g ''Sales Rep'', amount g)) low
      = [(Str ''Bob'', 10), (Str ''Eve'', 20), (Str ''Max'', 15), (Str ''Pam'', 5)]"
    by simp
  from arg_cong[OF pairs, of "map fst"]
  have k: "map (\<lambda>g. cell_of g ''Sales Rep'') low = [Str ''Bob'', Str ''Eve'', Str ''Max'', Str ''Pam'']"
    by (simp add: comp_def)
  from arg_cong[OF pairs, of "map snd"]
  have a: "map amount low = [10, 20, 15, 5]"
    by (simp add: comp_def)
  from arg_cong[OF a, of length] have n: "length low = 4" by simp
  then have "low \<noteq> []" by auto
  with shape have "map Str [''Pam'', ''Bob'', ''Max'']
                     = map (\<lambda>i. cell_of (low ! i) ''Sales Rep'') (take 3 idxs)"
    by auto
  with v h c w r' t' low k a d s o n show ?thesis
    by (auto simp: make_recommendations_def)
qed

text \<open>
  C8.  Whenever orders is positive, the average order value is defined and the average
  order value times orders is the revenue (exactly, over the rationals).
\<close>

theorem aov_round_trip:
  assumes "compute_metrics pf df = Inr m" and "0 < orders m"
  shows "\<exists>a. aov m = Some a \<and> a * orders m = revenue m"
  using assms by (auto simp: compute_metrics_Inr split: if_splits)

theorem aov_round_trip_witness:
  "compute_metrics rejects tie_dataset = Inr tie_metrics
   \<and> 0 < orders tie_metrics
   \<and> aov tie_metrics = Some 50
   \<and> 50 * orders tie_metrics = revenue tie_metrics"
proof -
  have h: "compute_metrics rejects tie_dataset = Inr tie_metrics"
    by (rule tie_metrics_computed)
  have p: "0 < orders tie_metrics"
    by (simp add: tie_metrics_def)
  from aov_round_trip [OF h p] show ?thesis
    using h p by (auto simp: tie_metrics_def)
qed




text \<open>
  C10.  Whenever the recommendations are produced, the inventory note is left out exactly
  when some column name, lowercased as a whole, is one of the six listed names.  A name
  that only contains one of them does not count: \<^verbatim>\<open>Stock_Quantity\<close> and \<^verbatim>\<open>Return_Reason\<close> do
  not suppress the note, \<^verbatim>\<open>Return_Flag\<close> does.
\<close>

theorem inventory_note_exact_names:
  assumes "make_recommendations df = Inr recs"
  shows "(InventoryNote \<in> set recs
            \<longleftrightarrow> \<not> list_ex (\<lambda>c. lower c \<in> set inventory_names) (columns df))
         \<and> lower ''Stock_Quantity'' \<notin> set inventory_names
         \<and> lower ''Return_Reason'' \<notin> set inventory_names
         \<and> lower ''Return_Flag'' \<in> set inventory_names"
proof -
  have "lower ''Stock_Quantity'' \<notin> set inventory_names
         \<and> lower ''Return_Reason'' \<notin> set inventory_names
         \<and> lower ''Return_Flag'' \<in> set inventory_names"
    by code_simp
  with inventory_note_iff [OF assms] show ?thesis by simp
qed

theorem inventory_note_exact_names_witness:
  "make_recommendations integration_fields = Inr [InventoryNote]
   \<and> make_recommendations integration_fields_flag = Inr []
   \<and> \<not> list_ex (\<lambda>c. lower c \<in> set inventory_names) (columns integration_fields)
   \<and> list_ex (\<lambda>c. lower c \<in> set inventory_names) (columns integration_fields_flag)"
proof -
  have h1: "make_recommendations integration_fields = Inr [InventoryNote]"
    by code_simp
  have h2: "make_recommendations integration_fields_flag = Inr []"
    by code_simp
  show ?thesis
    using h1 h2 inventory_note_exact_names [OF h1] inventory_note_exact_names [OF h2]
    by simp
qed


end
